theory Spec2Isabelle
  imports Main "HOL-Library.Char_ord" "HOL-Library.List_Lexorder"
begin

section \<open>The namespaced store\<close>

text \<open>
  The selectors of \<^verbatim>\<open>ServerDB\<close> that the handler and the update queuer name.
  The enumeration itself is declared in a header that is not part of the sources at
  hand; only the selectors used in the two translation units are listed.
\<close>

datatype ServerDB =
    EMAIL_USER
  | USER_DEVICE
  | USER_TOP_DIR
  | TOP_DIR_PLACEHOLDER
  | TOP_DIR_META
  | TOP_DIR_RELPATH
  | TOP_DIR_RELPATH_LOCK
  | TOP_DIR_FPTRS
  | TOP_DIR_DATA
  | UPDATE_ACTION_QUEUE
  | UPDATE_ACTION_LOG
  | DEVICE_SYNC

text \<open>
  \<^verbatim>\<open>DBManagerServer::Options\<close>: the pair that addresses one database. A
  default-constructed value has the empty \<^verbatim>\<open>name\<close>; every use in the sources sets
  \<^verbatim>\<open>type\<close> before the first call.
\<close>

record Options =
  type :: ServerDB
  name :: string

text \<open>
  One database is a finite table from keys to values, kept as an association list.
  The order of the list carries no meaning: the iterator of the storage engine walks
  the keys in bytewise order, which \<open>SeekToFirst\<close> below computes with the
  lexicographic order on byte strings.
\<close>

type_synonym leveldb = "(string \<times> string) list"

definition db_Get :: "leveldb \<Rightarrow> string \<Rightarrow> string option" where
  "db_Get db key = map_of db key"

definition db_Delete :: "leveldb \<Rightarrow> string \<Rightarrow> leveldb" where
  "db_Delete db key = filter (\<lambda>p. fst p \<noteq> key) db"

definition db_Put :: "leveldb \<Rightarrow> string \<Rightarrow> string \<Rightarrow> leveldb" where
  "db_Put db key val = (key, val) # db_Delete db key"

definition SeekToFirst :: "leveldb \<Rightarrow> string option" where
  "SeekToFirst db = (case db of [] \<Rightarrow> None | p # ps \<Rightarrow> Some (fold min (map fst ps) (fst p)))"

text \<open>
  The state behind the \<^verbatim>\<open>DBManagerServer\<close> pointer that both the handler and the
  queuer hold: one database for each (type, name), and the user identifier counter.
\<close>

record DBManagerServer =
  dbs :: "ServerDB \<times> string \<Rightarrow> leveldb"
  last_user_id :: int

definition db :: "DBManagerServer \<Rightarrow> Options \<Rightarrow> leveldb" where
  "db manager options = dbs manager (type options, name options)"

text \<open>
  Modelled from the spec: \<^verbatim>\<open>DBManagerServer::Get\<close>, whose body is not among the
  sources. The spec has \<^verbatim>\<open>Get(ns,name,key)\<close> return the value or absent, absence
  leaving an empty result. The C++ signature returns a \<^verbatim>\<open>bool\<close> and fills a string
  that every caller passes in freshly constructed, so the model returns the pair of
  both: \<open>(False, [])\<close> for an absent key. The handler ignores the \<^verbatim>\<open>bool\<close> and
  tests the string for emptiness; the queuer wraps each call in a \<^verbatim>\<open>CHECK\<close>, which
  the spec describes as a fatal abort on absent metadata.
\<close>

definition Get :: "DBManagerServer \<Rightarrow> Options \<Rightarrow> string \<Rightarrow> bool \<times> string" where
  "Get manager options key =
     (case db_Get (db manager options) key of
        None \<Rightarrow> (False, [])
      | Some val \<Rightarrow> (True, val))"

text \<open>
  Modelled from the spec: \<^verbatim>\<open>DBManagerServer::Put\<close>, whose body is not among the
  sources. The spec has \<^verbatim>\<open>Put(ns,name,key,value)\<close> overwrite. Failure of the
  storage engine is outside the model, so the \<^verbatim>\<open>bool\<close> the C++ returns is always
  true and is left out.
\<close>

definition Put :: "DBManagerServer \<Rightarrow> Options \<Rightarrow> string \<Rightarrow> string \<Rightarrow> DBManagerServer" where
  "Put manager options key val =
     manager\<lparr>dbs := (dbs manager)
       ((type options, name options) := db_Put (db manager options) key val)\<rparr>"

text \<open>\<^verbatim>\<open>db->Delete(leveldb::WriteOptions(), tuple)\<close> on the database of \<open>options\<close>.\<close>

definition Delete :: "DBManagerServer \<Rightarrow> Options \<Rightarrow> string \<Rightarrow> DBManagerServer" where
  "Delete manager options key =
     manager\<lparr>dbs := (dbs manager)
       ((type options, name options) := db_Delete (db manager options) key)\<rparr>"

text \<open>
  Modelled from the spec: \<^verbatim>\<open>DBManagerServer::GetNextUserID\<close>, whose body is not
  among the sources. The spec asks for a monotonic counter whose values are strictly
  increasing and never reused.
\<close>

definition GetNextUserID :: "DBManagerServer \<Rightarrow> int \<times> DBManagerServer" where
  "GetNextUserID manager =
     (last_user_id manager + 1, manager\<lparr>last_user_id := last_user_id manager + 1\<rparr>)"

text \<open>A freshly created server: every database empty, no identifier issued.\<close>

definition new_server :: DBManagerServer where
  "new_server = \<lparr>dbs = (\<lambda>_. []), last_user_id = 0\<rparr>"

section \<open>Library routines the sources call\<close>

text \<open>\<^verbatim>\<open>base::IntToString\<close>: the decimal text of an integer.\<close>

fun digits_of_nat :: "nat \<Rightarrow> string" where
  "digits_of_nat n =
     (if n < 10 then [char_of (48 + n)]
      else digits_of_nat (n div 10) @ [char_of (48 + n mod 10)])"

definition IntToString :: "int \<Rightarrow> string" where
  "IntToString i = (if i < 0 then CHR ''-'' # digits_of_nat (nat (- i)) else digits_of_nat (nat i))"

text \<open>
  \<^verbatim>\<open>base::SplitString(str, c, &r)\<close> of the string utilities the sources include:
  the pieces of \<open>str\<close> between occurrences of \<open>c\<close>, each trimmed of ASCII white
  space; a string that is empty or all white space gives no piece at all. The spec only
  says that records are joined with the delimiter.
\<close>

definition kWhitespaceASCII :: "char list" where
  "kWhitespaceASCII = [CHR 0x09, CHR 0x0A, CHR 0x0B, CHR 0x0C, CHR 0x0D, CHR 0x20]"

definition TrimWhitespace :: "string \<Rightarrow> string" where
  "TrimWhitespace input =
     rev (dropWhile (\<lambda>c. c \<in> set kWhitespaceASCII)
       (rev (dropWhile (\<lambda>c. c \<in> set kWhitespaceASCII) input)))"

text \<open>
  The scan keeps the piece being read in \<open>tmp\<close> and the pieces found in \<open>r\<close>. At
  the end of the string the last piece is dropped when it is empty and nothing was found
  before it.
\<close>

fun SplitStringT :: "string \<Rightarrow> char \<Rightarrow> string \<Rightarrow> string list \<Rightarrow> string list" where
  "SplitStringT [] s tmp r =
     (let tmp = TrimWhitespace tmp in if r \<noteq> [] \<or> tmp \<noteq> [] then r @ [tmp] else r)"
| "SplitStringT (x # str) s tmp r =
     (if x = s then SplitStringT str s [] (r @ [TrimWhitespace tmp])
      else SplitStringT str s (tmp @ [x]) r)"

definition SplitString :: "string \<Rightarrow> char \<Rightarrow> string list" where
  "SplitString str c = SplitStringT str c [] []"

section \<open>The service handler\<close>

record UserAuth =
  email :: string

text \<open>
  \<^verbatim>\<open>UserID LockboxServiceHandler::RegisterUser(const UserAuth& user)\<close>

  The declaration of \<^verbatim>\<open>UserID\<close> is not among the sources; identifiers are
  integers without a bound here, and \<open>-1\<close> is the value returned for an email that
  is already registered.
\<close>

definition RegisterUser :: "DBManagerServer \<Rightarrow> 'a UserAuth_scheme \<Rightarrow> int \<times> DBManagerServer" where
  "RegisterUser manager user =
     (let options = \<lparr>type = EMAIL_USER, name = []\<rparr>;
          val = snd (Get manager options (email user))
      in if val \<noteq> [] then (- 1, manager)
         else
           let (uid, manager1) = GetNextUserID manager;
               uid_to_persist = IntToString uid
           in (uid, Put manager1 options (email user) uid_to_persist))"

text \<open>
  The requests and the response of the calls below. Their declarations are generated
  from an interface description that is not among the sources; each record lists the
  members the handler reads or writes, and any further member lives in the extension
  part of the record.
\<close>

record RegisterRelativePathRequest =
  top_dir :: string

record PathLockRequest =
  top_dir :: string
  rel_path :: string

record PathLockResponse =
  acquired :: bool
  users :: "string list"

record Payload =
  data :: string

record RemotePackage =
  top_dir :: string
  rel_path_id :: string
  payload :: Payload

text \<open>
  \<^verbatim>\<open>void LockboxServiceHandler::RegisterRelativePath(string& _return, const RegisterRelativePathRequest& req)\<close>

  \<^verbatim>\<open>CreateGUIDString\<close> is an external generator. The model takes the sequence of
  the strings it hands out, \<open>guid i\<close> being the result of call number \<open>i\<close>. The
  \<^verbatim>\<open>while (true)\<close> has no bound, so the loop is a partial function and \<open>None\<close>
  stands for a call that never returns.
\<close>

partial_function (option) RegisterRelativePath_loop ::
  "(nat \<Rightarrow> string) \<Rightarrow> DBManagerServer \<Rightarrow> Options \<Rightarrow> nat \<Rightarrow> (string \<times> DBManagerServer) option"
where
  "RegisterRelativePath_loop guid manager options i =
     (let rel_path_id = guid i;
          options = options\<lparr>type := TOP_DIR_RELPATH\<rparr>;
          found = snd (Get manager options rel_path_id)
      in if found = [] then Some (rel_path_id, Put manager options rel_path_id ''none'')
         else RegisterRelativePath_loop guid manager options (Suc i))"

definition RegisterRelativePath ::
  "(nat \<Rightarrow> string) \<Rightarrow> DBManagerServer \<Rightarrow> 'a RegisterRelativePathRequest_scheme
     \<Rightarrow> (string \<times> DBManagerServer) option"
where
  "RegisterRelativePath guid manager req =
     RegisterRelativePath_loop guid manager
       \<lparr>type = TOP_DIR_META, name = RegisterRelativePathRequest.top_dir req\<rparr> 0"

text \<open>
  \<^verbatim>\<open>void LockboxServiceHandler::AcquireLockRelPath(PathLockResponse& _return, const PathLockRequest& lock)\<close>

  The response is an in-out parameter: \<^verbatim>\<open>push_back\<close> appends to whatever list it
  already holds. The lock status is read and not used.
\<close>

definition AcquireLockRelPath ::
  "DBManagerServer \<Rightarrow> PathLockResponse \<Rightarrow> 'a PathLockRequest_scheme
     \<Rightarrow> PathLockResponse \<times> DBManagerServer"
where
  "AcquireLockRelPath manager ret lock =
     (let options = \<lparr>type = TOP_DIR_RELPATH_LOCK, name = PathLockRequest.top_dir lock\<rparr>;
          lock_status = snd (Get manager options (rel_path lock))
      in (ret\<lparr>acquired := True, users := users ret @ [''me2@you.com'']\<rparr>, manager))"

text \<open>The response object the RPC layer constructs before it calls the handler.\<close>

definition new_PathLockResponse :: PathLockResponse where
  "new_PathLockResponse = \<lparr>acquired = False, users = []\<rparr>"

text \<open>
  \<^verbatim>\<open>void LockboxServiceHandler::ReleaseLockRelPath(const PathLockRequest& lock)\<close>:
  the body is empty.
\<close>

definition ReleaseLockRelPath :: "DBManagerServer \<Rightarrow> 'a PathLockRequest_scheme \<Rightarrow> DBManagerServer" where
  "ReleaseLockRelPath manager lock = manager"

text \<open>
  \<^verbatim>\<open>int64_t LockboxServiceHandler::UploadPackage(const RemotePackage& pkg)\<close>

  Two external routines are parameters: \<open>SHA1HashString\<close>, the digest, and
  \<open>write\<close>, the binary serialisation of the whole package that
  \<^verbatim>\<open>pkg.write(bin_prot.get())\<close> leaves in the memory buffer. The local \<open>ret\<close> is
  computed and never used, as in the source.
\<close>

definition UploadPackage ::
  "(string \<Rightarrow> string) \<Rightarrow> ('a RemotePackage_scheme \<Rightarrow> string) \<Rightarrow> DBManagerServer
     \<Rightarrow> 'a RemotePackage_scheme \<Rightarrow> int \<times> DBManagerServer"
where
  "UploadPackage SHA1HashString write manager pkg =
     (let ret = int (length (data (payload pkg)));
          mem = write pkg;
          hash_of_prot = SHA1HashString (data (payload pkg));
          options = \<lparr>type = TOP_DIR_RELPATH, name = RemotePackage.top_dir pkg\<rparr>;
          previous = snd (Get manager options (rel_path_id pkg));
          manager1 = Put manager options (rel_path_id pkg) hash_of_prot;
          options = options\<lparr>type := TOP_DIR_FPTRS\<rparr>;
          manager2 = Put manager1 options hash_of_prot previous;
          options = options\<lparr>type := TOP_DIR_DATA\<rparr>;
          manager3 = Put manager2 options hash_of_prot mem
      in (int (length mem), manager3))"

text \<open>
  A run of registrations, one after the other on the same server, with the value each
  call returned: the history against which "previously issued" is read.
\<close>

fun RegisterUser_calls ::
  "DBManagerServer \<Rightarrow> 'a UserAuth_scheme list \<Rightarrow> int list \<times> DBManagerServer"
where
  "RegisterUser_calls manager [] = ([], manager)"
| "RegisterUser_calls manager (user # rest) =
     (let (uid, manager1) = RegisterUser manager user;
          (uids, manager2) = RegisterUser_calls manager1 rest
      in (uid # uids, manager2))"

section \<open>The update queuer\<close>

text \<open>
  One worker thread is modelled, alone on the store: the mutexes, the condition
  variable and thread interruption have no counterpart. What ends the process is a
  value: a failed \<^verbatim>\<open>CHECK\<close>, or the read of a vector element that does not exist
  (undefined in C++, an abort here). The state at that moment is kept with it.

  Of the four references the worker binds to the fields of the tuple, only
  \<^verbatim>\<open>top_dir\<close>, that is \<^verbatim>\<open>update[1]\<close>, is ever read: \<^verbatim>\<open>ts\<close>, \<^verbatim>\<open>rel_path\<close>
  and \<^verbatim>\<open>hash\<close> are bound and not used. So the read that can miss is the one of
  \<^verbatim>\<open>update[1]\<close>, for a tuple of fewer than two fields; a tuple of two or three
  fields is fanned out like one of four.
\<close>

datatype failure = CHECK_failed string | index_out_of_range

type_synonym 'a aborting = "(failure \<times> DBManagerServer) + 'a"

definition state_of :: "DBManagerServer aborting \<Rightarrow> DBManagerServer" where
  "state_of r = (case r of Inl (f, dbm) \<Rightarrow> dbm | Inr dbm \<Rightarrow> dbm)"

text \<open>The inner loop of \<^verbatim>\<open>UpdateQueuer::Run\<close>: \<^verbatim>\<open>for (const string& device : devices)\<close>.\<close>

fun update_devices :: "DBManagerServer \<Rightarrow> string \<Rightarrow> string list \<Rightarrow> DBManagerServer aborting" where
  "update_devices dbm tuple [] = Inr dbm"
| "update_devices dbm tuple (device # rest) =
     (let options = \<lparr>type = DEVICE_SYNC, name = []\<rparr>
      in case Get dbm options device of
           (False, _) \<Rightarrow> Inl (CHECK_failed ''dbm_->Get(options, device, &updates)'', dbm)
         | (True, updates) \<Rightarrow>
             let updates_to_write = (if updates = [] then [] else updates @ '','')
             in update_devices (Put dbm options device (updates_to_write @ tuple)) tuple rest)"

text \<open>The outer loop: \<^verbatim>\<open>for (const string& user : users)\<close>.\<close>

fun update_users :: "DBManagerServer \<Rightarrow> string \<Rightarrow> string list \<Rightarrow> DBManagerServer aborting" where
  "update_users dbm tuple [] = Inr dbm"
| "update_users dbm tuple (user # rest) =
     (let options = \<lparr>type = USER_DEVICE, name = []\<rparr>
      in case Get dbm options user of
           (False, _) \<Rightarrow> Inl (CHECK_failed (user @ '' not in USER_DEVICE''), dbm)
         | (True, devices_to_update) \<Rightarrow>
             (case update_devices dbm tuple (SplitString devices_to_update (CHR '','')) of
                Inl abort \<Rightarrow> Inl abort
              | Inr dbm1 \<Rightarrow> update_users dbm1 tuple rest))"

text \<open>\<^verbatim>\<open>bool DBEmpty(leveldb::DB* db, Sync* sync)\<close>\<close>

definition DBEmpty :: "leveldb \<Rightarrow> bool" where
  "DBEmpty d = (SeekToFirst d = None)"

text \<open>
  The body of the \<^verbatim>\<open>while (true)\<close> of \<^verbatim>\<open>UpdateQueuer::Run\<close>, from the moment the
  wait on the condition variable has returned.
\<close>

definition Run_iteration :: "DBManagerServer \<Rightarrow> DBManagerServer aborting" where
  "Run_iteration dbm =
     (let options = \<lparr>type = UPDATE_ACTION_QUEUE, name = []\<rparr>
      in case SeekToFirst (db dbm options) of
           None \<Rightarrow> Inl (CHECK_failed ''it->Valid()'', dbm)
         | Some tuple \<Rightarrow>
             let dbm1 = Put dbm (options\<lparr>type := UPDATE_ACTION_LOG\<rparr>) tuple [];
                 dbm2 = Delete dbm1 options tuple;
                 update = SplitString tuple (CHR ''_'')
             in (if length update < 2 then Inl (index_out_of_range, dbm2)
                else
                  let ts = update ! 0;
                      top_dir = update ! 1;
                      rel_path = update ! 2;
                      hash = update ! 3;
                      options = \<lparr>type = TOP_DIR_META, name = top_dir\<rparr>
                  in (case Get dbm2 options ''EDITORS'' of
                        (False, _) \<Rightarrow>
                          Inl (CHECK_failed ''dbm_->Get(options, EDITORS, &users_to_update)'', dbm2)
                      | (True, users_to_update) \<Rightarrow>
                          update_users dbm2 tuple (SplitString users_to_update (CHR '','')))))"

text \<open>
  Every device of every editor, in the order the worker visits them: the device lists
  of the editors, each read from the user-device table and split at the commas.
\<close>

definition devices_of :: "DBManagerServer \<Rightarrow> string list \<Rightarrow> string list" where
  "devices_of dbm editors =
     concat (map (\<lambda>user. SplitString (snd (Get dbm \<lparr>type = USER_DEVICE, name = []\<rparr> user)) (CHR '',''))
       editors)"

section \<open>States the claims are tried on\<close>

text \<open>
  Top directory \<open>7\<close> shared by two editors, with an empty lock table; and the same
  directory with the lock entry of path \<open>p\<close> set.
\<close>

definition shared_dir :: DBManagerServer where
  "shared_dir =
     Put new_server \<lparr>type = TOP_DIR_META, name = ''7''\<rparr> ''EDITORS'' ''alice@x.com,bob@x.com''"

definition held_path :: DBManagerServer where
  "held_path =
     Put new_server \<lparr>type = TOP_DIR_RELPATH_LOCK, name = ''7''\<rparr> ''p'' ''alice@x.com''"

text \<open>Two versions of the file at path \<open>p\<close> of top directory \<open>7\<close>.\<close>

definition first_version :: RemotePackage where
  "first_version =
     \<lparr>RemotePackage.top_dir = ''7'', rel_path_id = ''p'', payload = \<lparr>data = ''abc''\<rparr>\<rparr>"

definition second_version :: RemotePackage where
  "second_version =
     \<lparr>RemotePackage.top_dir = ''7'', rel_path_id = ''p'', payload = \<lparr>data = ''abcd''\<rparr>\<rparr>"

text \<open>Top directory \<open>7\<close> with the path identifier \<open>g\<close> reserved.\<close>

definition reserved_g :: DBManagerServer where
  "reserved_g = Put new_server \<lparr>type = TOP_DIR_RELPATH, name = ''7''\<rparr> ''g'' ''none''"

text \<open>Two versions of the file at the reserved path \<open>g\<close> of top directory \<open>7\<close>.\<close>

definition first_on_g :: RemotePackage where
  "first_on_g =
     \<lparr>RemotePackage.top_dir = ''7'', rel_path_id = ''g'', payload = \<lparr>data = ''abc''\<rparr>\<rparr>"

definition second_on_g :: RemotePackage where
  "second_on_g =
     \<lparr>RemotePackage.top_dir = ''7'', rel_path_id = ''g'', payload = \<lparr>data = ''abcd''\<rparr>\<rparr>"

text \<open>
  The scenario of the spec: top directory \<open>7\<close> with the editors \<open>u1\<close> and \<open>u2\<close>,
  device \<open>d1\<close> of \<open>u1\<close>, devices \<open>d2\<close> and \<open>d3\<close> of \<open>u2\<close>, and one pending tuple.
  In \<open>registered_only\<close> no device has a mailbox record yet; in \<open>with_mailboxes\<close>
  each has one, that of \<open>d2\<close> holding an earlier update. In \<open>unknown_dir\<close> a tuple
  for a directory without editors sorts first; in \<open>listed_twice\<close> the editors of
  directory \<open>7\<close> name \<open>u1\<close> twice, and in \<open>unknown_editor\<close> they include a user
  without a device list.
\<close>

definition registered_only :: DBManagerServer where
  "registered_only =
     Put (Put (Put (Put new_server
       \<lparr>type = UPDATE_ACTION_QUEUE, name = []\<rparr> ''1_7_p_h'' [])
       \<lparr>type = TOP_DIR_META, name = ''7''\<rparr> ''EDITORS'' ''u1,u2'')
       \<lparr>type = USER_DEVICE, name = []\<rparr> ''u1'' ''d1'')
       \<lparr>type = USER_DEVICE, name = []\<rparr> ''u2'' ''d2,d3''"

definition with_mailboxes :: DBManagerServer where
  "with_mailboxes =
     Put (Put (Put registered_only
       \<lparr>type = DEVICE_SYNC, name = []\<rparr> ''d1'' [])
       \<lparr>type = DEVICE_SYNC, name = []\<rparr> ''d2'' ''0_7_q_k'')
       \<lparr>type = DEVICE_SYNC, name = []\<rparr> ''d3'' []"

definition unknown_dir :: DBManagerServer where
  "unknown_dir = Put with_mailboxes \<lparr>type = UPDATE_ACTION_QUEUE, name = []\<rparr> ''0_9_p_h'' []"

definition listed_twice :: DBManagerServer where
  "listed_twice = Put with_mailboxes \<lparr>type = TOP_DIR_META, name = ''7''\<rparr> ''EDITORS'' ''u1,u1''"

definition unknown_editor :: DBManagerServer where
  "unknown_editor = Put with_mailboxes \<lparr>type = TOP_DIR_META, name = ''7''\<rparr> ''EDITORS'' ''u1,u3''"

section \<open>Facts about the store\<close>

lemma db_Get_Put: "db_Get (db_Put d k v) k' = (if k' = k then Some v else db_Get d k')"
  by (induction d) (auto simp: db_Get_def db_Put_def db_Delete_def)

lemma db_Get_Delete: "db_Get (db_Delete d k) k' = (if k' = k then None else db_Get d k')"
  by (induction d) (auto simp: db_Get_def db_Delete_def)

lemma dbs_Put:
  "dbs (Put m opts k v) tn =
     (if tn = (type opts, name opts) then db_Put (dbs m tn) k v else dbs m tn)"
  by (simp add: Put_def db_def)

lemma dbs_Delete:
  "dbs (Delete m opts k) tn =
     (if tn = (type opts, name opts) then db_Delete (dbs m tn) k else dbs m tn)"
  by (simp add: Delete_def db_def)

lemma Get_Put:
  "Get (Put m opts k v) opts' k' =
     (if type opts' = type opts \<and> name opts' = name opts \<and> k' = k then (True, v)
      else Get m opts' k')"
  by (auto simp: Get_def Put_def db_def db_Get_Put)

lemma Get_last_user_id_update [simp]:
  "Get (m\<lparr>last_user_id := c\<rparr>) opts k = Get m opts k"
  by (simp add: Get_def db_def)

lemma last_user_id_Put [simp]: "last_user_id (Put m opts k v) = last_user_id m"
  by (simp add: Put_def)

lemma fold_min_in: "fold min xs (x::string) \<in> insert x (set xs)"
  by (induction xs arbitrary: x) (auto simp: min_def)

lemma SeekToFirst_in: "SeekToFirst d = Some k \<Longrightarrow> k \<in> fst ` set d"
  using fold_min_in by (fastforce simp: SeekToFirst_def split: list.splits)

lemma length_db_Delete: "k \<in> fst ` set d \<Longrightarrow> length (db_Delete d k) < length d"
  unfolding db_Delete_def
  by (metis (mono_tags, lifting) imageE length_filter_less)

lemma Get_dbs: "Get m opts k = (case db_Get (dbs m (type opts, name opts)) k of None \<Rightarrow> (False, []) | Some v \<Rightarrow> (True, v))"
  by (simp add: Get_def db_def)

lemma Get_cong_dbs:
  "dbs m' (type opts, name opts) = dbs m (type opts, name opts) \<Longrightarrow> Get m' opts k = Get m opts k"
  by (simp add: Get_def db_def)

lemma count_list_db_Put: "count_list (map fst (db_Put d k v)) k = 1"
  by (auto simp: db_Put_def db_Delete_def count_list_0_iff)

lemma db_Delete_absent: "k \<notin> fst ` set (db_Delete d k)"
  by (auto simp: db_Delete_def)

lemma digits_of_nat_nonempty: "digits_of_nat n \<noteq> []"
  by (subst digits_of_nat.simps) simp

lemma IntToString_nonempty: "IntToString i \<noteq> []"
  by (simp add: IntToString_def digits_of_nat_nonempty)

section \<open>What one iteration of the worker leaves untouched\<close>

lemma update_devices_frame:
  "tn \<noteq> (DEVICE_SYNC, []) \<Longrightarrow> dbs (state_of (update_devices dbm tuple ds)) tn = dbs dbm tn"
  by (induction ds arbitrary: dbm)
     (auto simp: state_of_def dbs_Put Let_def split: prod.splits bool.splits)

lemma update_users_frame:
  "tn \<noteq> (DEVICE_SYNC, []) \<Longrightarrow> dbs (state_of (update_users dbm tuple us)) tn = dbs dbm tn"
proof (induction us arbitrary: dbm)
  case Nil
  then show ?case by (simp add: state_of_def)
next
  case (Cons u us)
  show ?case
  proof (cases "Get dbm \<lparr>type = USER_DEVICE, name = []\<rparr> u")
    case (Pair found devs)
    show ?thesis
    proof (cases found)
      case False
      with Pair show ?thesis by (simp add: state_of_def)
    next
      case True
      show ?thesis
      proof (cases "update_devices dbm tuple (SplitString devs (CHR '',''))")
        case (Inl a)
        with update_devices_frame [OF Cons.prems, of dbm tuple "SplitString devs (CHR '','')"]
          Pair True
        show ?thesis by (simp add: state_of_def)
      next
        case (Inr dbm1)
        with update_devices_frame [OF Cons.prems, of dbm tuple "SplitString devs (CHR '','')"]
        have "dbs dbm1 tn = dbs dbm tn" by (simp add: state_of_def)
        with Cons.IH [OF Cons.prems, of dbm1] Pair True Inr show ?thesis by simp
      qed
    qed
  qed
qed

lemma Run_iteration_queue:
  assumes "SeekToFirst (dbs dbm (UPDATE_ACTION_QUEUE, [])) = Some tuple"
  shows "dbs (state_of (Run_iteration dbm)) (UPDATE_ACTION_QUEUE, []) =
           db_Delete (dbs dbm (UPDATE_ACTION_QUEUE, [])) tuple"
  using assms
  by (auto simp: Run_iteration_def db_def Let_def update_users_frame dbs_Put dbs_Delete
        state_of_def [of "Inl _"] split: prod.splits bool.splits)

section \<open>The worker loop\<close>

text \<open>
  \<^verbatim>\<open>void UpdateQueuer::Run()\<close>. With no producer running beside it, a worker that
  finds the queue empty waits on the condition variable for good: that is the result
  \<open>Waiting\<close>. Each iteration removes one key of the queue, so the loop is total.
\<close>

datatype worker = Waiting DBManagerServer | Aborted failure DBManagerServer

function Run :: "DBManagerServer \<Rightarrow> worker" where
  "Run dbm =
     (if DBEmpty (db dbm \<lparr>type = UPDATE_ACTION_QUEUE, name = []\<rparr>) then Waiting dbm
      else case Run_iteration dbm of
             Inl (f, dbm1) \<Rightarrow> Aborted f dbm1
           | Inr dbm1 \<Rightarrow> Run dbm1)"
  by pat_completeness auto
termination
proof (relation "measure (\<lambda>dbm. length (dbs dbm (UPDATE_ACTION_QUEUE, [])))")
  show "wf (measure (\<lambda>dbm. length (dbs dbm (UPDATE_ACTION_QUEUE, []))))" by simp
next
  fix dbm dbm1
  assume ne: "\<not> DBEmpty (db dbm \<lparr>type = UPDATE_ACTION_QUEUE, name = []\<rparr>)"
    and it: "Run_iteration dbm = Inr dbm1"
  from ne obtain tuple where t: "SeekToFirst (dbs dbm (UPDATE_ACTION_QUEUE, [])) = Some tuple"
    by (auto simp: DBEmpty_def db_def)
  from Run_iteration_queue [OF t] it
  have "dbs dbm1 (UPDATE_ACTION_QUEUE, []) = db_Delete (dbs dbm (UPDATE_ACTION_QUEUE, [])) tuple"
    by (simp add: state_of_def)
  with length_db_Delete [OF SeekToFirst_in [OF t]]
  show "(dbm1, dbm) \<in> measure (\<lambda>dbm. length (dbs dbm (UPDATE_ACTION_QUEUE, [])))"
    by simp
qed

section \<open>User registration\<close>

lemma RegisterUser_fresh:
  "snd (Get m \<lparr>type = EMAIL_USER, name = []\<rparr> (email u)) = [] \<Longrightarrow>
   RegisterUser m u =
     (last_user_id m + 1,
      Put (m\<lparr>last_user_id := last_user_id m + 1\<rparr>) \<lparr>type = EMAIL_USER, name = []\<rparr> (email u)
        (IntToString (last_user_id m + 1)))"
  by (simp add: RegisterUser_def GetNextUserID_def)

lemma RegisterUser_duplicate:
  "snd (Get m \<lparr>type = EMAIL_USER, name = []\<rparr> (email u)) \<noteq> [] \<Longrightarrow>
   RegisterUser m u = (- 1, m)"
  by (simp add: RegisterUser_def)

lemma RegisterUser_step:
  assumes "RegisterUser m u = (uid, m')" and "0 \<le> last_user_id m"
  shows "last_user_id m \<le> last_user_id m'" and "uid \<le> last_user_id m'"
    and "e \<noteq> email u \<Longrightarrow> Get m' \<lparr>type = EMAIL_USER, name = []\<rparr> e = Get m \<lparr>type = EMAIL_USER, name = []\<rparr> e"
proof -
  show "last_user_id m \<le> last_user_id m'"
    using assms RegisterUser_fresh [of m u] RegisterUser_duplicate [of m u]
    by (cases "snd (Get m \<lparr>type = EMAIL_USER, name = []\<rparr> (email u)) = []") auto
  show "uid \<le> last_user_id m'"
    using assms RegisterUser_fresh [of m u] RegisterUser_duplicate [of m u]
    by (cases "snd (Get m \<lparr>type = EMAIL_USER, name = []\<rparr> (email u)) = []") auto
  show "e \<noteq> email u \<Longrightarrow> Get m' \<lparr>type = EMAIL_USER, name = []\<rparr> e = Get m \<lparr>type = EMAIL_USER, name = []\<rparr> e"
    using assms RegisterUser_fresh [of m u] RegisterUser_duplicate [of m u]
    by (cases "snd (Get m \<lparr>type = EMAIL_USER, name = []\<rparr> (email u)) = []") (auto simp: Get_Put)
qed

lemma RegisterUser_calls_invariant:
  assumes "RegisterUser_calls m us = (uids, m')" and "0 \<le> last_user_id m"
  shows "last_user_id m \<le> last_user_id m'
       \<and> (\<forall>r \<in> set uids. r \<le> last_user_id m')
       \<and> (\<forall>e. e \<notin> email ` set us \<longrightarrow>
             Get m' \<lparr>type = EMAIL_USER, name = []\<rparr> e = Get m \<lparr>type = EMAIL_USER, name = []\<rparr> e)"
  using assms
proof (induction us arbitrary: m uids m')
  case Nil
  then show ?case by simp
next
  case (Cons u us)
  obtain uid m1 where step: "RegisterUser m u = (uid, m1)" by (cases "RegisterUser m u")
  obtain rest m2 where calls: "RegisterUser_calls m1 us = (rest, m2)"
    by (cases "RegisterUser_calls m1 us")
  from Cons.prems(1) step calls have eq: "uids = uid # rest" "m' = m2" by simp_all
  note s = RegisterUser_step [OF step Cons.prems(2)]
  from s(1) Cons.prems(2) have "0 \<le> last_user_id m1" by simp
  from Cons.IH [OF calls this] s show ?case unfolding eq by auto
qed

lemma RegisterUser_keeps:
  assumes "RegisterUser m u = (uid, m')"
    and "snd (Get m \<lparr>type = EMAIL_USER, name = []\<rparr> e) \<noteq> []"
  shows "Get m' \<lparr>type = EMAIL_USER, name = []\<rparr> e = Get m \<lparr>type = EMAIL_USER, name = []\<rparr> e"
proof (cases "snd (Get m \<lparr>type = EMAIL_USER, name = []\<rparr> (email u)) = []")
  case True
  with assms(2) have "e \<noteq> email u" by auto
  with RegisterUser_fresh [OF True] assms(1) show ?thesis by (auto simp: Get_Put)
next
  case False
  from RegisterUser_duplicate [OF False] assms(1) show ?thesis by simp
qed

lemma RegisterUser_calls_keeps:
  assumes "RegisterUser_calls m us = (uids, m')"
    and "snd (Get m \<lparr>type = EMAIL_USER, name = []\<rparr> e) \<noteq> []"
  shows "Get m' \<lparr>type = EMAIL_USER, name = []\<rparr> e = Get m \<lparr>type = EMAIL_USER, name = []\<rparr> e"
  using assms
proof (induction us arbitrary: m uids m')
  case Nil
  then show ?case by simp
next
  case (Cons u us)
  obtain uid m1 where step: "RegisterUser m u = (uid, m1)" by (cases "RegisterUser m u")
  obtain rest m2 where calls: "RegisterUser_calls m1 us = (rest, m2)"
    by (cases "RegisterUser_calls m1 us")
  from Cons.prems(1) step calls have eq: "m' = m2" by simp
  note keep = RegisterUser_keeps [OF step Cons.prems(2)]
  with Cons.prems(2) have "snd (Get m1 \<lparr>type = EMAIL_USER, name = []\<rparr> e) \<noteq> []" by simp
  from Cons.IH [OF calls this] keep show ?case unfolding eq by simp
qed

text \<open>
  Claim C4. Take any run of registrations \<open>earlier\<close> on a new server, none of them
  for the email of \<open>user\<close>. The call for \<open>user\<close> then succeeds: the identifier it
  returns is not the error value and is strictly greater than every value returned
  before, and the email is mapped to it. After that, and after any further run of
  registrations \<open>later\<close>, a call with the same email returns the error value \<open>-1\<close>
  and leaves the whole state, counter and mapping included, as it was; the email is
  still mapped to the identifier of the first call.
\<close>

theorem RegisterUser_first_then_again:
  assumes "email user \<notin> email ` set earlier"
    and "email again = email user"
  shows "let (issued, manager) = RegisterUser_calls new_server earlier;
             (uid, manager1) = RegisterUser manager user;
             (issued_later, manager2) = RegisterUser_calls manager1 later
         in (\<forall>earlier_id \<in> set issued. earlier_id < uid)
            \<and> uid \<noteq> - 1
            \<and> Get manager1 \<lparr>type = EMAIL_USER, name = []\<rparr> (email user) = (True, IntToString uid)
            \<and> RegisterUser manager1 again = (- 1, manager1)
            \<and> RegisterUser manager2 again = (- 1, manager2)
            \<and> Get manager2 \<lparr>type = EMAIL_USER, name = []\<rparr> (email user) = (True, IntToString uid)"
proof -
  obtain issued manager where calls: "RegisterUser_calls new_server earlier = (issued, manager)"
    by (cases "RegisterUser_calls new_server earlier")
  have zero: "0 \<le> last_user_id new_server" by (simp add: new_server_def)
  note inv = RegisterUser_calls_invariant [OF calls zero]
  have "Get new_server \<lparr>type = EMAIL_USER, name = []\<rparr> (email user) = (False, [])"
    by (simp add: Get_def db_def db_Get_def new_server_def)
  with inv assms(1)
  have unregistered: "snd (Get manager \<lparr>type = EMAIL_USER, name = []\<rparr> (email user)) = []"
    by simp
  define uid where "uid = last_user_id manager + 1"
  define manager1 where
    "manager1 = Put (manager\<lparr>last_user_id := uid\<rparr>) \<lparr>type = EMAIL_USER, name = []\<rparr>
                  (email user) (IntToString uid)"
  have first: "RegisterUser manager user = (uid, manager1)"
    unfolding uid_def manager1_def by (rule RegisterUser_fresh [OF unregistered])
  have stored: "Get manager1 \<lparr>type = EMAIL_USER, name = []\<rparr> (email user) = (True, IntToString uid)"
    unfolding manager1_def by (simp add: Get_Put)
  then have taken: "snd (Get manager1 \<lparr>type = EMAIL_USER, name = []\<rparr> (email user)) \<noteq> []"
    by (simp add: IntToString_nonempty)
  obtain issued_later manager2 where
    later: "RegisterUser_calls manager1 later = (issued_later, manager2)"
    by (cases "RegisterUser_calls manager1 later")
  from RegisterUser_calls_keeps [OF later taken] stored
  have stored2: "Get manager2 \<lparr>type = EMAIL_USER, name = []\<rparr> (email user) = (True, IntToString uid)"
    by simp
  then have taken2: "snd (Get manager2 \<lparr>type = EMAIL_USER, name = []\<rparr> (email user)) \<noteq> []"
    by (simp add: IntToString_nonempty)
  from taken assms(2) have again1: "RegisterUser manager1 again = (- 1, manager1)"
    by (intro RegisterUser_duplicate) simp
  from taken2 assms(2) have again2: "RegisterUser manager2 again = (- 1, manager2)"
    by (intro RegisterUser_duplicate) simp
  from inv zero have "\<forall>r \<in> set issued. r < uid" and "uid \<noteq> - 1"
    unfolding uid_def by auto
  with calls first later stored stored2 again1 again2 show ?thesis by simp
qed

theorem RegisterUser_first_then_again_witness:
  "email \<lparr>email = ''c@x.com''\<rparr>
     \<notin> email ` set [\<lparr>email = ''a@x.com''\<rparr>, \<lparr>email = ''a@x.com''\<rparr>, \<lparr>email = ''b@x.com''\<rparr>]
   \<and> fst (RegisterUser_calls new_server
        [\<lparr>email = ''a@x.com''\<rparr>, \<lparr>email = ''a@x.com''\<rparr>, \<lparr>email = ''b@x.com''\<rparr>,
         \<lparr>email = ''c@x.com''\<rparr>, \<lparr>email = ''d@x.com''\<rparr>, \<lparr>email = ''a@x.com''\<rparr>,
         \<lparr>email = ''c@x.com''\<rparr>]) = [1, - 1, 2, 3, 4, - 1, - 1]
   \<and> (let (issued, manager) = RegisterUser_calls new_server
              [\<lparr>email = ''a@x.com''\<rparr>, \<lparr>email = ''a@x.com''\<rparr>, \<lparr>email = ''b@x.com''\<rparr>];
           (uid, manager1) = RegisterUser manager \<lparr>email = ''c@x.com''\<rparr>;
           (issued_later, manager2) = RegisterUser_calls manager1
              [\<lparr>email = ''d@x.com''\<rparr>, \<lparr>email = ''a@x.com''\<rparr>]
       in (\<forall>earlier_id \<in> set issued. earlier_id < uid)
          \<and> uid \<noteq> - 1
          \<and> Get manager1 \<lparr>type = EMAIL_USER, name = []\<rparr> (email \<lparr>email = ''c@x.com''\<rparr>)
              = (True, IntToString uid)
          \<and> RegisterUser manager1 \<lparr>email = ''c@x.com''\<rparr> = (- 1, manager1)
          \<and> RegisterUser manager2 \<lparr>email = ''c@x.com''\<rparr> = (- 1, manager2)
          \<and> Get manager2 \<lparr>type = EMAIL_USER, name = []\<rparr> (email \<lparr>email = ''c@x.com''\<rparr>)
              = (True, IntToString uid))"
proof -
  have h: "email \<lparr>email = ''c@x.com''\<rparr>
     \<notin> email ` set [\<lparr>email = ''a@x.com''\<rparr>, \<lparr>email = ''a@x.com''\<rparr>, \<lparr>email = ''b@x.com''\<rparr>]"
    by simp
  have v: "fst (RegisterUser_calls new_server
        [\<lparr>email = ''a@x.com''\<rparr>, \<lparr>email = ''a@x.com''\<rparr>, \<lparr>email = ''b@x.com''\<rparr>,
         \<lparr>email = ''c@x.com''\<rparr>, \<lparr>email = ''d@x.com''\<rparr>, \<lparr>email = ''a@x.com''\<rparr>,
         \<lparr>email = ''c@x.com''\<rparr>]) = [1, - 1, 2, 3, 4, - 1, - 1]"
    by code_simp
  from RegisterUser_first_then_again [OF h refl, of "[\<lparr>email = ''d@x.com''\<rparr>, \<lparr>email = ''a@x.com''\<rparr>]"]
    h v
  show ?thesis by blast
qed

section \<open>Relative path identifiers\<close>

lemma RegisterRelativePath_loop_returns:
  assumes "snd (Get manager (options\<lparr>type := TOP_DIR_RELPATH\<rparr>) (guid k)) = []"
    and "\<forall>j. i \<le> j \<and> j < k \<longrightarrow> snd (Get manager (options\<lparr>type := TOP_DIR_RELPATH\<rparr>) (guid j)) \<noteq> []"
    and "i \<le> k"
  shows "RegisterRelativePath_loop guid manager options i =
           Some (guid k, Put manager (options\<lparr>type := TOP_DIR_RELPATH\<rparr>) (guid k) ''none'')"
  using assms
proof (induction "k - i" arbitrary: i options)
  case 0
  then have "i = k" by simp
  with "0.prems"(1) show ?case
    by (subst RegisterRelativePath_loop.simps) (simp add: Let_def)
next
  case (Suc n)
  then have less: "i < k" and n: "n = k - Suc i" by simp_all
  with Suc.prems have taken: "snd (Get manager (options\<lparr>type := TOP_DIR_RELPATH\<rparr>) (guid i)) \<noteq> []"
    by simp
  have "RegisterRelativePath_loop guid manager (options\<lparr>type := TOP_DIR_RELPATH\<rparr>) (Suc i) =
           Some (guid k, Put manager (options\<lparr>type := TOP_DIR_RELPATH\<rparr>\<lparr>type := TOP_DIR_RELPATH\<rparr>)
             (guid k) ''none'')"
    using Suc.prems less by (intro Suc.hyps(1) [OF n]) simp_all
  with taken show ?case
    by (subst RegisterRelativePath_loop.simps) (simp add: Let_def)
qed

lemma RegisterRelativePath_loop_Some:
  assumes "RegisterRelativePath_loop guid manager options i = Some y"
  shows "\<exists>j. snd (Get manager (options\<lparr>type := TOP_DIR_RELPATH\<rparr>) (guid j)) = []"
proof (rule RegisterRelativePath_loop.raw_induct
        [rotated 1, where P = "\<lambda>guid manager options i y.
           \<exists>j. snd (Get manager (options\<lparr>type := TOP_DIR_RELPATH\<rparr>) (guid j)) = []"])
  show "RegisterRelativePath_loop guid manager options i = Some y" by (rule assms)
next
  fix loop :: "(nat \<Rightarrow> string) \<Rightarrow> DBManagerServer \<Rightarrow> Options \<Rightarrow> nat
                 \<Rightarrow> (string \<times> DBManagerServer) option"
    and guid manager options i y
  assume IH: "\<And>guid manager options i y. loop guid manager options i = Some y \<Longrightarrow>
                \<exists>j. snd (Get manager (options\<lparr>type := TOP_DIR_RELPATH\<rparr>) (guid j)) = []"
    and step: "(let rel_path_id = guid i; options = options\<lparr>type := TOP_DIR_RELPATH\<rparr>;
                    found = snd (Get manager options rel_path_id)
                in if found = [] then Some (rel_path_id, Put manager options rel_path_id ''none'')
                   else loop guid manager options (Suc i)) = Some y"
  show "\<exists>j. snd (Get manager (options\<lparr>type := TOP_DIR_RELPATH\<rparr>) (guid j)) = []"
  proof (cases "snd (Get manager (options\<lparr>type := TOP_DIR_RELPATH\<rparr>) (guid i)) = []")
    case True
    then show ?thesis by blast
  next
    case False
    with step have "loop guid manager (options\<lparr>type := TOP_DIR_RELPATH\<rparr>) (Suc i) = Some y"
      by (simp add: Let_def)
    from IH [OF this] show ?thesis by simp
  qed
qed

lemma RegisterRelativePath_loop_diverges:
  assumes "\<forall>j. snd (Get manager (options\<lparr>type := TOP_DIR_RELPATH\<rparr>) (guid j)) \<noteq> []"
  shows "RegisterRelativePath_loop guid manager options i = None"
  using assms RegisterRelativePath_loop_Some [of guid manager options i]
  by (cases "RegisterRelativePath_loop guid manager options i") auto

lemma RegisterRelativePath_loop_reserved:
  assumes "RegisterRelativePath_loop guid manager options i = Some y"
  shows "Get (snd y) (options\<lparr>type := TOP_DIR_RELPATH\<rparr>) (fst y) = (True, ''none'')"
proof (rule RegisterRelativePath_loop.raw_induct
        [rotated 1, where P = "\<lambda>guid manager options i y.
           Get (snd y) (options\<lparr>type := TOP_DIR_RELPATH\<rparr>) (fst y) = (True, ''none'')"])
  show "RegisterRelativePath_loop guid manager options i = Some y" by (rule assms)
next
  fix loop :: "(nat \<Rightarrow> string) \<Rightarrow> DBManagerServer \<Rightarrow> Options \<Rightarrow> nat
                 \<Rightarrow> (string \<times> DBManagerServer) option"
    and guid manager options i y
  assume IH: "\<And>guid manager options i y. loop guid manager options i = Some y \<Longrightarrow>
                Get (snd y) (options\<lparr>type := TOP_DIR_RELPATH\<rparr>) (fst y) = (True, ''none'')"
    and step: "(let rel_path_id = guid i; options = options\<lparr>type := TOP_DIR_RELPATH\<rparr>;
                    found = snd (Get manager options rel_path_id)
                in if found = [] then Some (rel_path_id, Put manager options rel_path_id ''none'')
                   else loop guid manager options (Suc i)) = Some y"
  show "Get (snd y) (options\<lparr>type := TOP_DIR_RELPATH\<rparr>) (fst y) = (True, ''none'')"
  proof (cases "snd (Get manager (options\<lparr>type := TOP_DIR_RELPATH\<rparr>) (guid i)) = []")
    case True
    with step have "y = (guid i, Put manager (options\<lparr>type := TOP_DIR_RELPATH\<rparr>) (guid i) ''none'')"
      by (simp add: Let_def)
    then show ?thesis by (simp add: Get_Put)
  next
    case False
    with step have "loop guid manager (options\<lparr>type := TOP_DIR_RELPATH\<rparr>) (Suc i) = Some y"
      by (simp add: Let_def)
    from IH [OF this] show ?thesis by simp
  qed
qed

lemma RegisterRelativePath_reserved:
  assumes "RegisterRelativePath guid manager req = Some (issued_id, manager1)"
  shows "Get manager1
           \<lparr>type = TOP_DIR_RELPATH, name = RegisterRelativePathRequest.top_dir req\<rparr> issued_id
         = (True, ''none'')"
  using RegisterRelativePath_loop_reserved [OF assms [unfolded RegisterRelativePath_def]]
  by simp

lemma RegisterRelativePath_new_server:
  "RegisterRelativePath (\<lambda>i. ''g'') new_server \<lparr>RegisterRelativePathRequest.top_dir = ''7''\<rparr>
     = Some (''g'', reserved_g)"
proof -
  have free: "snd (Get new_server (\<lparr>type = TOP_DIR_META, name = ''7''\<rparr>\<lparr>type := TOP_DIR_RELPATH\<rparr>)
                 ((\<lambda>i. ''g'') 0)) = []"
    by (simp add: Get_def db_def db_Get_def new_server_def)
  from RegisterRelativePath_loop_returns
         [of new_server "\<lparr>type = TOP_DIR_META, name = ''7''\<rparr>" "\<lambda>i. ''g''" 0 0] free
  show ?thesis by (simp add: RegisterRelativePath_def reserved_g_def)
qed

text \<open>
  Claim C9, as stated, fails: with the identifier \<open>g\<close> reserved and a generator that
  hands out \<open>g\<close> at every call, \<open>RegisterRelativePath\<close> never returns. There is no
  bound on the attempts and no error outcome.
\<close>

theorem RegisterRelativePath_counterexample:
  "RegisterRelativePath (\<lambda>i. ''g'') reserved_g \<lparr>RegisterRelativePathRequest.top_dir = ''7''\<rparr> = None"
  unfolding RegisterRelativePath_def
  by (rule RegisterRelativePath_loop_diverges) (simp add: reserved_g_def Get_Put)

text \<open>
  Claim C9, amended. \<open>RegisterRelativePath\<close> retries without bound. When call number
  \<open>k\<close> of the generator is the first to give an identifier whose entry in the path map
  of the directory is absent or empty, the handler returns that identifier and reserves
  it with the value \<open>none\<close>. When every identifier the generator gives is reserved,
  the call does not return.
\<close>

theorem RegisterRelativePath_unbounded:
  "(snd (Get manager \<lparr>type = TOP_DIR_RELPATH, name = RegisterRelativePathRequest.top_dir req\<rparr>
           (guid k)) = []
    \<and> (\<forall>i<k. snd (Get manager
           \<lparr>type = TOP_DIR_RELPATH, name = RegisterRelativePathRequest.top_dir req\<rparr> (guid i)) \<noteq> [])
    \<longrightarrow> RegisterRelativePath guid manager req =
          Some (guid k, Put manager
            \<lparr>type = TOP_DIR_RELPATH, name = RegisterRelativePathRequest.top_dir req\<rparr> (guid k) ''none''))
   \<and> ((\<forall>i. snd (Get manager
           \<lparr>type = TOP_DIR_RELPATH, name = RegisterRelativePathRequest.top_dir req\<rparr> (guid i)) \<noteq> [])
    \<longrightarrow> RegisterRelativePath guid manager req = None)"
  using RegisterRelativePath_loop_returns
          [of manager "\<lparr>type = TOP_DIR_META, name = RegisterRelativePathRequest.top_dir req\<rparr>" guid k 0]
        RegisterRelativePath_loop_diverges
          [of manager "\<lparr>type = TOP_DIR_META, name = RegisterRelativePathRequest.top_dir req\<rparr>" guid 0]
  by (simp add: RegisterRelativePath_def)

theorem RegisterRelativePath_unbounded_witness:
  "RegisterRelativePath (\<lambda>i. if i < 2 then ''g'' else ''h'') reserved_g
      \<lparr>RegisterRelativePathRequest.top_dir = ''7''\<rparr>
     = Some (''h'', Put reserved_g \<lparr>type = TOP_DIR_RELPATH, name = ''7''\<rparr> ''h'' ''none'')
   \<and> (\<forall>i. snd (Get reserved_g \<lparr>type = TOP_DIR_RELPATH, name = ''7''\<rparr> ((\<lambda>i. ''g'') i)) \<noteq> [])
   \<and> RegisterRelativePath (\<lambda>i. ''g'') reserved_g
        \<lparr>RegisterRelativePathRequest.top_dir = ''7''\<rparr> = None"
proof -
  have free: "snd (Get reserved_g \<lparr>type = TOP_DIR_RELPATH, name = ''7''\<rparr> ''h'') = []"
    by (simp add: reserved_g_def Get_Put) (simp add: Get_def db_def db_Get_def new_server_def)
  have taken: "snd (Get reserved_g \<lparr>type = TOP_DIR_RELPATH, name = ''7''\<rparr> ''g'') \<noteq> []"
    by (simp add: reserved_g_def Get_Put)
  from RegisterRelativePath_unbounded
         [of reserved_g "\<lparr>RegisterRelativePathRequest.top_dir = ''7''\<rparr>"
             "\<lambda>i. if i < 2 then ''g'' else ''h''" 2]
       RegisterRelativePath_unbounded
         [of reserved_g "\<lparr>RegisterRelativePathRequest.top_dir = ''7''\<rparr>" "\<lambda>i. ''g''" 0]
       free taken
  show ?thesis by simp
qed

section \<open>Path locks\<close>

text \<open>
  Claim C10. For every request and every state of the store, \<open>AcquireLockRelPath\<close>
  writes nothing: the state it returns is the state it was given, so no lock entry is
  ever recorded as held. The response, which the RPC layer hands over freshly
  constructed, nevertheless reports \<open>acquired = true\<close> and the one collaborator
  \<open>me2@you.com\<close>.
\<close>

theorem AcquireLockRelPath_writes_nothing:
  "snd (AcquireLockRelPath manager ret lock) = manager
   \<and> AcquireLockRelPath manager new_PathLockResponse lock =
       (\<lparr>acquired = True, users = [''me2@you.com'']\<rparr>, manager)"
  by (simp add: AcquireLockRelPath_def new_PathLockResponse_def)

text \<open>
  Claim C5, as stated, fails: with the lock entry of \<open>(7, p)\<close> unheld and the editors
  \<open>alice@x.com\<close> and \<open>bob@x.com\<close>, a call made by \<open>alice@x.com\<close> leaves the entry
  absent and answers with a list that is not the editors without the caller.
\<close>

theorem AcquireLockRelPath_counterexample:
  "Get shared_dir \<lparr>type = TOP_DIR_META, name = ''7''\<rparr> ''EDITORS''
     = (True, ''alice@x.com,bob@x.com'')
   \<and> Get shared_dir \<lparr>type = TOP_DIR_RELPATH_LOCK, name = ''7''\<rparr> ''p'' = (False, [])
   \<and> Get (snd (AcquireLockRelPath shared_dir new_PathLockResponse
             \<lparr>PathLockRequest.top_dir = ''7'', rel_path = ''p''\<rparr>))
          \<lparr>type = TOP_DIR_RELPATH_LOCK, name = ''7''\<rparr> ''p'' = (False, [])
   \<and> set (users (fst (AcquireLockRelPath shared_dir new_PathLockResponse
             \<lparr>PathLockRequest.top_dir = ''7'', rel_path = ''p''\<rparr>)))
       \<noteq> set (SplitString ''alice@x.com,bob@x.com'' (CHR '','')) - {''alice@x.com''}"
  by (simp add: AcquireLockRelPath_def new_PathLockResponse_def shared_dir_def Get_Put)
     (simp add: Get_def db_def db_Get_def new_server_def SplitString_def TrimWhitespace_def
        kWhitespaceASCII_def)

text \<open>
  Claim C5, amended. For every \<open>(top_dir, rel_path)\<close> whose lock entry is unheld,
  \<open>AcquireLockRelPath\<close> leaves the entry unheld and returns \<open>acquired = true\<close> with
  the fixed list \<open>[me2@you.com]\<close>, whatever the editors of the directory are.
\<close>

theorem AcquireLockRelPath_unheld:
  assumes "snd (Get manager
                  \<lparr>type = TOP_DIR_RELPATH_LOCK, name = PathLockRequest.top_dir lock\<rparr>
                  (rel_path lock)) = []"
  shows "snd (Get (snd (AcquireLockRelPath manager new_PathLockResponse lock))
                \<lparr>type = TOP_DIR_RELPATH_LOCK, name = PathLockRequest.top_dir lock\<rparr>
                (rel_path lock)) = []
         \<and> acquired (fst (AcquireLockRelPath manager new_PathLockResponse lock))
         \<and> users (fst (AcquireLockRelPath manager new_PathLockResponse lock))
             = [''me2@you.com'']"
  using assms by (simp add: AcquireLockRelPath_def new_PathLockResponse_def)

theorem AcquireLockRelPath_unheld_witness:
  "snd (Get shared_dir \<lparr>type = TOP_DIR_RELPATH_LOCK, name = ''7''\<rparr> ''p'') = []
   \<and> snd (Get (snd (AcquireLockRelPath shared_dir new_PathLockResponse
                \<lparr>PathLockRequest.top_dir = ''7'', rel_path = ''p''\<rparr>))
                \<lparr>type = TOP_DIR_RELPATH_LOCK, name = ''7''\<rparr> ''p'') = []
   \<and> acquired (fst (AcquireLockRelPath shared_dir new_PathLockResponse
                \<lparr>PathLockRequest.top_dir = ''7'', rel_path = ''p''\<rparr>))
   \<and> users (fst (AcquireLockRelPath shared_dir new_PathLockResponse
                \<lparr>PathLockRequest.top_dir = ''7'', rel_path = ''p''\<rparr>)) = [''me2@you.com'']"
proof -
  have h: "snd (Get shared_dir \<lparr>type = TOP_DIR_RELPATH_LOCK,
              name = PathLockRequest.top_dir \<lparr>PathLockRequest.top_dir = ''7'', rel_path = ''p''\<rparr>\<rparr>
              (rel_path \<lparr>PathLockRequest.top_dir = ''7'', rel_path = ''p''\<rparr>)) = []"
    by (simp add: shared_dir_def Get_Put) (simp add: Get_def db_def db_Get_def new_server_def)
  from AcquireLockRelPath_unheld [OF h] h show ?thesis by simp
qed

text \<open>
  Claim C8, as stated, fails in its first half: a lock entry that is set is still set,
  with the same holder, after \<open>ReleaseLockRelPath\<close> on that path.
\<close>

theorem ReleaseLockRelPath_counterexample:
  "Get (ReleaseLockRelPath held_path \<lparr>PathLockRequest.top_dir = ''7'', rel_path = ''p''\<rparr>)
     \<lparr>type = TOP_DIR_RELPATH_LOCK, name = ''7''\<rparr> ''p'' = (True, ''alice@x.com'')"
  by (simp add: ReleaseLockRelPath_def held_path_def Get_Put)

text \<open>
  Claim C8, amended. \<open>ReleaseLockRelPath\<close> is a no-op on the whole store: it clears
  nothing and changes nothing. It cannot fail, and the state after two releases in a
  row is the state after one.
\<close>

theorem ReleaseLockRelPath_no_op:
  "ReleaseLockRelPath manager lock = manager
   \<and> ReleaseLockRelPath (ReleaseLockRelPath manager lock) lock = ReleaseLockRelPath manager lock"
  by (simp add: ReleaseLockRelPath_def)

section \<open>Uploads\<close>

lemma UploadPackage_frame:
  "t \<noteq> TOP_DIR_DATA \<Longrightarrow> t \<noteq> TOP_DIR_FPTRS \<Longrightarrow> t \<noteq> TOP_DIR_RELPATH \<Longrightarrow>
   dbs (snd (UploadPackage SHA1HashString write manager pkg)) (t, n) = dbs manager (t, n)"
  by (simp add: UploadPackage_def Let_def dbs_Put)

lemma UploadPackage_Get:
  "Get (snd (UploadPackage SHA1HashString write manager pkg)) opts k =
     (if name opts = RemotePackage.top_dir pkg \<and> type opts = TOP_DIR_DATA
           \<and> k = SHA1HashString (data (payload pkg)) then (True, write pkg)
      else if name opts = RemotePackage.top_dir pkg \<and> type opts = TOP_DIR_FPTRS
           \<and> k = SHA1HashString (data (payload pkg)) then
        (True, snd (Get manager \<lparr>type = TOP_DIR_RELPATH, name = RemotePackage.top_dir pkg\<rparr> (rel_path_id pkg)))
      else if name opts = RemotePackage.top_dir pkg \<and> type opts = TOP_DIR_RELPATH
           \<and> k = rel_path_id pkg then (True, SHA1HashString (data (payload pkg)))
      else Get manager opts k)"
  by (simp add: UploadPackage_def Let_def Get_Put)

text \<open>
  Claim C1, as stated, fails in its last part. The identifier \<open>g\<close> that
  \<open>RegisterRelativePath\<close> issues on a new server is reserved with the value \<open>none\<close>
  in the map that holds the heads, so the first upload to \<open>g\<close> does not store the
  empty string as its back pointer, whatever the digest and the serialisation are.
\<close>

theorem UploadPackage_first_counterexample:
  "RegisterRelativePath (\<lambda>i. ''g'') new_server \<lparr>RegisterRelativePathRequest.top_dir = ''7''\<rparr>
     = Some (''g'', reserved_g)
   \<and> \<not> (\<exists>SHA1HashString write.
          Get (snd (UploadPackage SHA1HashString write reserved_g
                 \<lparr>RemotePackage.top_dir = ''7'', rel_path_id = ''g'', payload = \<lparr>data = ''abc''\<rparr>\<rparr>))
            \<lparr>type = TOP_DIR_FPTRS, name = ''7''\<rparr> (SHA1HashString ''abc'') = (True, []))"
  using RegisterRelativePath_new_server
  by (simp add: UploadPackage_Get reserved_g_def Get_Put)

text \<open>
  Claim C1, amended. Two calls of \<open>UploadPackage\<close> in a row for the same path of the
  same top directory, with the packages \<open>pkg1\<close> then \<open>pkg2\<close>: afterwards the back
  pointer stored under the digest of the second payload is the digest of the first
  payload, and the head of the path is the digest of the second payload. The back
  pointer an upload stores is the value the head of the path had before the call: for
  the first upload to an identifier that \<open>RegisterRelativePath\<close> issued for the
  directory it is the reservation value \<open>none\<close>, and it is the empty string when the
  path had no entry at all.
\<close>

theorem UploadPackage_chain:
  assumes "RemotePackage.top_dir pkg2 = RemotePackage.top_dir pkg1"
    and "rel_path_id pkg2 = rel_path_id pkg1"
  shows "Get (snd (UploadPackage SHA1HashString write
                (snd (UploadPackage SHA1HashString write manager pkg1)) pkg2))
           \<lparr>type = TOP_DIR_FPTRS, name = RemotePackage.top_dir pkg1\<rparr>
           (SHA1HashString (data (payload pkg2)))
         = (True, SHA1HashString (data (payload pkg1)))
       \<and> Get (snd (UploadPackage SHA1HashString write
                (snd (UploadPackage SHA1HashString write manager pkg1)) pkg2))
           \<lparr>type = TOP_DIR_RELPATH, name = RemotePackage.top_dir pkg1\<rparr> (rel_path_id pkg1)
         = (True, SHA1HashString (data (payload pkg2)))
       \<and> Get (snd (UploadPackage SHA1HashString write manager pkg1))
           \<lparr>type = TOP_DIR_FPTRS, name = RemotePackage.top_dir pkg1\<rparr>
           (SHA1HashString (data (payload pkg1)))
         = (True, snd (Get manager \<lparr>type = TOP_DIR_RELPATH, name = RemotePackage.top_dir pkg1\<rparr>
                         (rel_path_id pkg1)))
       \<and> (RegisterRelativePath guid manager0 req = Some (rel_path_id pkg1, manager)
            \<and> RegisterRelativePathRequest.top_dir req = RemotePackage.top_dir pkg1 \<longrightarrow>
           Get (snd (UploadPackage SHA1HashString write manager pkg1))
             \<lparr>type = TOP_DIR_FPTRS, name = RemotePackage.top_dir pkg1\<rparr>
             (SHA1HashString (data (payload pkg1)))
           = (True, ''none''))
       \<and> (Get manager \<lparr>type = TOP_DIR_RELPATH, name = RemotePackage.top_dir pkg1\<rparr>
              (rel_path_id pkg1) = (False, []) \<longrightarrow>
           Get (snd (UploadPackage SHA1HashString write manager pkg1))
             \<lparr>type = TOP_DIR_FPTRS, name = RemotePackage.top_dir pkg1\<rparr>
             (SHA1HashString (data (payload pkg1)))
           = (True, []))"
proof -
  have "Get manager \<lparr>type = TOP_DIR_RELPATH, name = RemotePackage.top_dir pkg1\<rparr> (rel_path_id pkg1)
          = (True, ''none'')"
    if "RegisterRelativePath guid manager0 req = Some (rel_path_id pkg1, manager)"
      and "RegisterRelativePathRequest.top_dir req = RemotePackage.top_dir pkg1"
    using RegisterRelativePath_reserved [OF that(1)] that(2) by simp
  with assms show ?thesis by (simp add: UploadPackage_Get)
qed

theorem UploadPackage_chain_witness:
  "RegisterRelativePath (\<lambda>i. ''g'') new_server \<lparr>RegisterRelativePathRequest.top_dir = ''7''\<rparr>
     = Some (''g'', reserved_g)
   \<and> Get (snd (UploadPackage rev (\<lambda>pkg. data (payload pkg)) reserved_g first_on_g))
       \<lparr>type = TOP_DIR_FPTRS, name = ''7''\<rparr> ''cba'' = (True, ''none'')
   \<and> Get (snd (UploadPackage rev (\<lambda>pkg. data (payload pkg))
          (snd (UploadPackage rev (\<lambda>pkg. data (payload pkg)) reserved_g first_on_g))
          second_on_g))
       \<lparr>type = TOP_DIR_FPTRS, name = ''7''\<rparr> ''dcba'' = (True, ''cba'')
   \<and> Get (snd (UploadPackage rev (\<lambda>pkg. data (payload pkg))
          (snd (UploadPackage rev (\<lambda>pkg. data (payload pkg)) reserved_g first_on_g))
          second_on_g))
       \<lparr>type = TOP_DIR_RELPATH, name = ''7''\<rparr> ''g'' = (True, ''dcba'')
   \<and> Get new_server \<lparr>type = TOP_DIR_RELPATH, name = ''7''\<rparr> ''p'' = (False, [])
   \<and> Get (snd (UploadPackage rev (\<lambda>pkg. data (payload pkg)) new_server first_version))
       \<lparr>type = TOP_DIR_FPTRS, name = ''7''\<rparr> ''cba'' = (True, [])"
proof -
  have same: "RemotePackage.top_dir second_on_g = RemotePackage.top_dir first_on_g"
    "rel_path_id second_on_g = rel_path_id first_on_g"
    by (simp_all add: first_on_g_def second_on_g_def)
  have same': "RemotePackage.top_dir second_version = RemotePackage.top_dir first_version"
    "rel_path_id second_version = rel_path_id first_version"
    by (simp_all add: first_version_def second_version_def)
  have issued: "RegisterRelativePath (\<lambda>i. ''g'') new_server
                  \<lparr>RegisterRelativePathRequest.top_dir = ''7''\<rparr> = Some (''g'', reserved_g)"
    by (rule RegisterRelativePath_new_server)
  have absent: "Get new_server \<lparr>type = TOP_DIR_RELPATH, name = ''7''\<rparr> ''p'' = (False, [])"
    by (simp add: Get_def db_def db_Get_def new_server_def)
  have head: "Get reserved_g \<lparr>type = TOP_DIR_RELPATH, name = ''7''\<rparr> ''g'' = (True, ''none'')"
    by (simp add: reserved_g_def Get_Put)
  from UploadPackage_chain [OF same, of rev "\<lambda>pkg. data (payload pkg)" reserved_g
         "\<lambda>i. ''g''" new_server "\<lparr>RegisterRelativePathRequest.top_dir = ''7''\<rparr>"]
       UploadPackage_chain [OF same', of rev "\<lambda>pkg. data (payload pkg)" new_server
         "\<lambda>i. ''g''" new_server "\<lparr>RegisterRelativePathRequest.top_dir = ''7''\<rparr>"]
       issued absent head
  show ?thesis by (simp add: first_on_g_def second_on_g_def first_version_def second_version_def)
qed

text \<open>
  Claim C3, as stated, fails: after an upload to a new server the pending-update queue
  of every partition is still empty, whatever the digest and the serialisation are.
\<close>

theorem UploadPackage_queue_counterexample:
  "\<not> (\<exists>SHA1HashString write n.
        dbs (snd (UploadPackage SHA1HashString write new_server
          \<lparr>RemotePackage.top_dir = ''7'', rel_path_id = ''p'', payload = \<lparr>data = ''abc''\<rparr>\<rparr>))
          (UPDATE_ACTION_QUEUE, n) \<noteq> [])"
  by (simp add: UploadPackage_frame new_server_def)

text \<open>
  Claim C3, amended. \<open>UploadPackage\<close> leaves the pending-update queue exactly as it
  found it: no update tuple is enqueued for the upload. (The handler holds the database
  manager only, so there is nothing through which it could wake the queuer.)
\<close>

theorem UploadPackage_queue_untouched:
  "dbs (snd (UploadPackage SHA1HashString write manager pkg)) (UPDATE_ACTION_QUEUE, n)
     = dbs manager (UPDATE_ACTION_QUEUE, n)"
  by (simp add: UploadPackage_frame)

text \<open>
  Claim C6, as stated, fails. The blob written is the serialisation of the whole
  package, and a serialisation that can be read back is injective. Two packages with the
  same payload and different path identifiers therefore cannot both leave the raw
  payload bytes under the digest, whatever the digest and the serialisation are.
\<close>

theorem UploadPackage_blob_counterexample:
  "\<not> (\<exists>SHA1HashString write. inj write
        \<and> Get (snd (UploadPackage SHA1HashString write new_server
                 \<lparr>RemotePackage.top_dir = ''7'', rel_path_id = ''p'', payload = \<lparr>data = ''abc''\<rparr>\<rparr>))
             \<lparr>type = TOP_DIR_DATA, name = ''7''\<rparr> (SHA1HashString ''abc'') = (True, ''abc'')
        \<and> Get (snd (UploadPackage SHA1HashString write new_server
                 \<lparr>RemotePackage.top_dir = ''7'', rel_path_id = ''q'', payload = \<lparr>data = ''abc''\<rparr>\<rparr>))
             \<lparr>type = TOP_DIR_DATA, name = ''7''\<rparr> (SHA1HashString ''abc'') = (True, ''abc''))"
proof
  assume "\<exists>SHA1HashString write. inj write
        \<and> Get (snd (UploadPackage SHA1HashString write new_server
                 \<lparr>RemotePackage.top_dir = ''7'', rel_path_id = ''p'', payload = \<lparr>data = ''abc''\<rparr>\<rparr>))
             \<lparr>type = TOP_DIR_DATA, name = ''7''\<rparr> (SHA1HashString ''abc'') = (True, ''abc'')
        \<and> Get (snd (UploadPackage SHA1HashString write new_server
                 \<lparr>RemotePackage.top_dir = ''7'', rel_path_id = ''q'', payload = \<lparr>data = ''abc''\<rparr>\<rparr>))
             \<lparr>type = TOP_DIR_DATA, name = ''7''\<rparr> (SHA1HashString ''abc'') = (True, ''abc'')"
  then obtain w :: "RemotePackage \<Rightarrow> string" where w: "inj w"
    and p: "w \<lparr>RemotePackage.top_dir = ''7'', rel_path_id = ''p'', payload = \<lparr>data = ''abc''\<rparr>\<rparr> = ''abc''"
    and q: "w \<lparr>RemotePackage.top_dir = ''7'', rel_path_id = ''q'', payload = \<lparr>data = ''abc''\<rparr>\<rparr> = ''abc''"
    by (auto simp: UploadPackage_Get)
  from p q have "w \<lparr>RemotePackage.top_dir = ''7'', rel_path_id = ''p'', payload = \<lparr>data = ''abc''\<rparr>\<rparr>
      = w \<lparr>RemotePackage.top_dir = ''7'', rel_path_id = ''q'', payload = \<lparr>data = ''abc''\<rparr>\<rparr>"
    by simp
  from injD [OF w this] show False by simp
qed

text \<open>
  Claim C6, amended. For every package, \<open>UploadPackage\<close> stores the binary
  serialisation of the whole package as the blob keyed by the digest of the payload, and
  returns the number of bytes of that serialisation. Uploading the same package again
  leaves the blob database as the first upload left it.
\<close>

theorem UploadPackage_blob:
  "Get (snd (UploadPackage SHA1HashString write manager pkg))
     \<lparr>type = TOP_DIR_DATA, name = RemotePackage.top_dir pkg\<rparr>
     (SHA1HashString (data (payload pkg))) = (True, write pkg)
   \<and> fst (UploadPackage SHA1HashString write manager pkg) = int (length (write pkg))
   \<and> dbs (snd (UploadPackage SHA1HashString write
             (snd (UploadPackage SHA1HashString write manager pkg)) pkg))
        (TOP_DIR_DATA, RemotePackage.top_dir pkg)
      = dbs (snd (UploadPackage SHA1HashString write manager pkg))
          (TOP_DIR_DATA, RemotePackage.top_dir pkg)"
  by (simp add: UploadPackage_Get) (simp add: UploadPackage_def Let_def dbs_Put db_Put_def db_Delete_def)

text \<open>
  The same for any state: an upload to a path whose head holds the reservation value
  records that value as its back pointer.
\<close>

lemma UploadPackage_after_reservation:
  "Get (snd (UploadPackage SHA1HashString write
          (Put manager \<lparr>type = TOP_DIR_RELPATH, name = RemotePackage.top_dir pkg\<rparr>
             (rel_path_id pkg) ''none'') pkg))
     \<lparr>type = TOP_DIR_FPTRS, name = RemotePackage.top_dir pkg\<rparr>
     (SHA1HashString (data (payload pkg))) = (True, ''none'')"
  by (simp add: UploadPackage_Get Get_Put)

section \<open>Fan-out of one update\<close>

lemma update_devices_ok:
  assumes "\<forall>d \<in> set ds. fst (Get dbm \<lparr>type = DEVICE_SYNC, name = []\<rparr> d)"
    and "distinct ds"
  shows "\<exists>dbm'. update_devices dbm tuple ds = Inr dbm'
           \<and> (\<forall>d. Get dbm' \<lparr>type = DEVICE_SYNC, name = []\<rparr> d =
                 (if d \<in> set ds
                  then (True, (if snd (Get dbm \<lparr>type = DEVICE_SYNC, name = []\<rparr> d) = [] then []
                               else snd (Get dbm \<lparr>type = DEVICE_SYNC, name = []\<rparr> d) @ '','') @ tuple)
                  else Get dbm \<lparr>type = DEVICE_SYNC, name = []\<rparr> d))"
  using assms
proof (induction ds arbitrary: dbm)
  case Nil
  then show ?case by simp
next
  case (Cons device rest)
  let ?opts = "\<lparr>type = DEVICE_SYNC, name = []\<rparr>"
  obtain updates where got: "Get dbm ?opts device = (True, updates)"
    using Cons.prems(1) by (cases "Get dbm ?opts device") auto
  define dbm1 where
    "dbm1 = Put dbm ?opts device ((if updates = [] then [] else updates @ '','') @ tuple)"
  have other: "Get dbm1 ?opts d = Get dbm ?opts d" if "d \<noteq> device" for d
    using that unfolding dbm1_def by (simp add: Get_Put)
  have same: "Get dbm1 ?opts device = (True, (if updates = [] then [] else updates @ '','') @ tuple)"
    unfolding dbm1_def by (simp add: Get_Put)
  from Cons.prems have notin: "device \<notin> set rest" and dist: "distinct rest" by simp_all
  have "\<forall>d \<in> set rest. fst (Get dbm1 ?opts d)"
  proof
    fix d assume d: "d \<in> set rest"
    with notin have "d \<noteq> device" by auto
    from other [OF this] Cons.prems(1) d show "fst (Get dbm1 ?opts d)" by simp
  qed
  from Cons.IH [OF this dist] obtain dbm' where
    run: "update_devices dbm1 tuple rest = Inr dbm'"
    and boxes: "\<And>d. Get dbm' ?opts d =
                 (if d \<in> set rest
                  then (True, (if snd (Get dbm1 ?opts d) = [] then []
                               else snd (Get dbm1 ?opts d) @ '','') @ tuple)
                  else Get dbm1 ?opts d)"
    by blast
  have "update_devices dbm tuple (device # rest) = Inr dbm'"
    using got run unfolding dbm1_def by (simp add: Let_def)
  moreover have "Get dbm' ?opts d =
                 (if d \<in> set (device # rest)
                  then (True, (if snd (Get dbm ?opts d) = [] then []
                               else snd (Get dbm ?opts d) @ '','') @ tuple)
                  else Get dbm ?opts d)" for d
  proof (cases "d = device")
    case True
    with notin boxes [of d] same got show ?thesis by simp
  next
    case False
    with boxes [of d] other [of d] show ?thesis by simp
  qed
  ultimately show ?case by blast
qed

lemma update_users_ok:
  assumes "\<forall>u \<in> set us. fst (Get dbm \<lparr>type = USER_DEVICE, name = []\<rparr> u)"
    and "\<forall>d \<in> set (devices_of dbm us). fst (Get dbm \<lparr>type = DEVICE_SYNC, name = []\<rparr> d)"
    and "distinct (devices_of dbm us)"
  shows "\<exists>dbm'. update_users dbm tuple us = Inr dbm'
           \<and> (\<forall>d. Get dbm' \<lparr>type = DEVICE_SYNC, name = []\<rparr> d =
                 (if d \<in> set (devices_of dbm us)
                  then (True, (if snd (Get dbm \<lparr>type = DEVICE_SYNC, name = []\<rparr> d) = [] then []
                               else snd (Get dbm \<lparr>type = DEVICE_SYNC, name = []\<rparr> d) @ '','') @ tuple)
                  else Get dbm \<lparr>type = DEVICE_SYNC, name = []\<rparr> d))"
  using assms
proof (induction us arbitrary: dbm)
  case Nil
  then show ?case by (simp add: devices_of_def)
next
  case (Cons user rest)
  let ?ud = "\<lparr>type = USER_DEVICE, name = []\<rparr>"
  let ?ds = "\<lparr>type = DEVICE_SYNC, name = []\<rparr>"
  obtain devices_to_update where got: "Get dbm ?ud user = (True, devices_to_update)"
    using Cons.prems(1) by (cases "Get dbm ?ud user") auto
  let ?devices = "SplitString devices_to_update (CHR '','')"
  have split: "devices_of dbm (user # rest) = ?devices @ devices_of dbm rest"
    using got by (simp add: devices_of_def)
  from Cons.prems(2) have all: "\<forall>d \<in> set (?devices @ devices_of dbm rest). fst (Get dbm ?ds d)"
    unfolding split .
  from Cons.prems(3) have dist: "distinct (?devices @ devices_of dbm rest)"
    unfolding split .
  from all have here: "\<forall>d \<in> set ?devices. fst (Get dbm ?ds d)"
    and later: "\<forall>d \<in> set (devices_of dbm rest). fst (Get dbm ?ds d)"
    by simp_all
  from dist have here_dist: "distinct ?devices"
    and later_dist: "distinct (devices_of dbm rest)"
    and apart: "set ?devices \<inter> set (devices_of dbm rest) = {}"
    by simp_all
  from update_devices_ok [OF here here_dist, of tuple] obtain dbm1 where
    run1: "update_devices dbm tuple ?devices = Inr dbm1"
    and boxes1: "\<And>d. Get dbm1 ?ds d =
                 (if d \<in> set ?devices
                  then (True, (if snd (Get dbm ?ds d) = [] then []
                               else snd (Get dbm ?ds d) @ '','') @ tuple)
                  else Get dbm ?ds d)"
    by (elim exE conjE) simp
  have frame1: "dbs dbm1 (USER_DEVICE, []) = dbs dbm (USER_DEVICE, [])"
    using update_devices_frame [of "(USER_DEVICE, [])" dbm tuple ?devices] run1
    by (simp add: state_of_def)
  then have users1: "Get dbm1 ?ud u = Get dbm ?ud u" for u
    by (intro Get_cong_dbs) simp
  then have devs1: "devices_of dbm1 rest = devices_of dbm rest"
    by (simp add: devices_of_def)
  have a: "\<forall>u \<in> set rest. fst (Get dbm1 ?ud u)"
    using Cons.prems(1) users1 by simp
  have b: "\<forall>d \<in> set (devices_of dbm1 rest). fst (Get dbm1 ?ds d)"
    using later boxes1 devs1 by simp
  have c: "distinct (devices_of dbm1 rest)"
    using later_dist devs1 by simp
  from Cons.IH [OF a b c] obtain dbm' where
    run: "update_users dbm1 tuple rest = Inr dbm'"
    and boxes: "\<And>d. Get dbm' ?ds d =
                 (if d \<in> set (devices_of dbm1 rest)
                  then (True, (if snd (Get dbm1 ?ds d) = [] then []
                               else snd (Get dbm1 ?ds d) @ '','') @ tuple)
                  else Get dbm1 ?ds d)"
    by (elim exE conjE) simp
  have "update_users dbm tuple (user # rest) = Inr dbm'"
    using got run1 run by simp
  moreover have "Get dbm' ?ds d =
                 (if d \<in> set (devices_of dbm (user # rest))
                  then (True, (if snd (Get dbm ?ds d) = [] then []
                               else snd (Get dbm ?ds d) @ '','') @ tuple)
                  else Get dbm ?ds d)" for d
  proof (cases "d \<in> set (devices_of dbm rest)")
    case True
    with apart have "d \<notin> set ?devices" by auto
    with True boxes [of d] boxes1 [of d] devs1 split show ?thesis by simp
  next
    case False
    with boxes [of d] boxes1 [of d] devs1 split show ?thesis by simp
  qed
  ultimately show ?case by blast
qed

lemma Run_iteration_log:
  assumes "SeekToFirst (dbs dbm (UPDATE_ACTION_QUEUE, [])) = Some tuple"
  shows "dbs (state_of (Run_iteration dbm)) (UPDATE_ACTION_LOG, []) =
           db_Put (dbs dbm (UPDATE_ACTION_LOG, [])) tuple []"
  using assms
  by (auto simp: Run_iteration_def db_def Let_def update_users_frame dbs_Put dbs_Delete
        state_of_def [of "Inl _"] split: prod.splits bool.splits)

lemma Get_after_claim:
  assumes "t \<noteq> UPDATE_ACTION_LOG" and "t \<noteq> UPDATE_ACTION_QUEUE"
  shows "Get (Delete (Put dbm \<lparr>type = UPDATE_ACTION_LOG, name = []\<rparr> tuple [])
                \<lparr>type = UPDATE_ACTION_QUEUE, name = []\<rparr> tuple) \<lparr>type = t, name = n\<rparr> k
         = Get dbm \<lparr>type = t, name = n\<rparr> k"
  using assms by (intro Get_cong_dbs) (simp add: dbs_Delete dbs_Put)

lemma Run_iteration_unfold:
  assumes "SeekToFirst (dbs dbm (UPDATE_ACTION_QUEUE, [])) = Some tuple"
    and "4 \<le> length (SplitString tuple (CHR ''_''))"
    and "Get dbm \<lparr>type = TOP_DIR_META, name = SplitString tuple (CHR ''_'') ! 1\<rparr> ''EDITORS''
           = (True, users_to_update)"
  shows "Run_iteration dbm =
           update_users (Delete (Put dbm \<lparr>type = UPDATE_ACTION_LOG, name = []\<rparr> tuple [])
                           \<lparr>type = UPDATE_ACTION_QUEUE, name = []\<rparr> tuple)
             tuple (SplitString users_to_update (CHR '',''))"
  using assms by (simp add: Run_iteration_def db_def Let_def Get_after_claim)

lemma Run_iteration_no_editors:
  assumes "SeekToFirst (dbs dbm (UPDATE_ACTION_QUEUE, [])) = Some tuple"
    and "4 \<le> length (SplitString tuple (CHR ''_''))"
    and "\<not> fst (Get dbm \<lparr>type = TOP_DIR_META, name = SplitString tuple (CHR ''_'') ! 1\<rparr> ''EDITORS'')"
  shows "Run_iteration dbm =
           Inl (CHECK_failed ''dbm_->Get(options, EDITORS, &users_to_update)'',
                Delete (Put dbm \<lparr>type = UPDATE_ACTION_LOG, name = []\<rparr> tuple [])
                           \<lparr>type = UPDATE_ACTION_QUEUE, name = []\<rparr> tuple)"
  using assms
  by (cases "Get dbm \<lparr>type = TOP_DIR_META, name = SplitString tuple (CHR ''_'') ! 1\<rparr> ''EDITORS''")
     (simp add: Run_iteration_def db_def Let_def Get_after_claim)

lemma devices_of_cong:
  "dbs dbm1 (USER_DEVICE, []) = dbs dbm (USER_DEVICE, []) \<Longrightarrow> devices_of dbm1 us = devices_of dbm us"
  by (simp add: devices_of_def Get_def db_def)

lemma update_users_aborts:
  assumes "\<exists>user \<in> set us. \<not> fst (Get dbm \<lparr>type = USER_DEVICE, name = []\<rparr> user)"
  shows "\<exists>f dbm'. update_users dbm tuple us = Inl (f, dbm')"
  using assms
proof (induction us arbitrary: dbm)
  case Nil
  then show ?case by simp
next
  case (Cons user rest)
  let ?ud = "\<lparr>type = USER_DEVICE, name = []\<rparr>"
  obtain found devices_to_update where got: "Get dbm ?ud user = (found, devices_to_update)"
    by (cases "Get dbm ?ud user")
  show ?case
  proof (cases found)
    case False
    with got show ?thesis by simp
  next
    case True
    with got Cons.prems have bad: "\<exists>user \<in> set rest. \<not> fst (Get dbm ?ud user)" by auto
    show ?thesis
    proof (cases "update_devices dbm tuple (SplitString devices_to_update (CHR '',''))")
      case (Inl abort)
      with got True show ?thesis by (cases abort) simp
    next
      case (Inr dbm1)
      with update_devices_frame [of "(USER_DEVICE, [])" dbm tuple "SplitString devices_to_update (CHR '','')"]
      have "dbs dbm1 (USER_DEVICE, []) = dbs dbm (USER_DEVICE, [])" by (simp add: state_of_def)
      then have "Get dbm1 ?ud u = Get dbm ?ud u" for u by (intro Get_cong_dbs) simp
      with bad have "\<exists>user \<in> set rest. \<not> fst (Get dbm1 ?ud user)" by simp
      from Cons.IH [OF this] got True Inr show ?thesis by simp
    qed
  qed
qed

text \<open>
  Tuples with too few fields. One of three fields is fanned out like a tuple of four,
  because the worker reads the top directory only; one of a single field is logged and
  removed from the queue, and the read of the top directory then misses.
\<close>

lemma Run_iteration_short_tuples:
  "(case Run_iteration (Put with_mailboxes \<lparr>type = UPDATE_ACTION_QUEUE, name = []\<rparr> ''0_7_p'' []) of
      Inl (f, dbm') \<Rightarrow> False
    | Inr dbm' \<Rightarrow>
        Get dbm' \<lparr>type = DEVICE_SYNC, name = []\<rparr> ''d1'' = (True, ''0_7_p'')
        \<and> Get dbm' \<lparr>type = DEVICE_SYNC, name = []\<rparr> ''d2'' = (True, ''0_7_q_k,0_7_p''))
   \<and> (case Run_iteration (Put with_mailboxes \<lparr>type = UPDATE_ACTION_QUEUE, name = []\<rparr> ''0'' []) of
      Inl (f, dbm') \<Rightarrow>
        f = index_out_of_range
        \<and> Get dbm' \<lparr>type = UPDATE_ACTION_LOG, name = []\<rparr> ''0'' = (True, [])
        \<and> Get dbm' \<lparr>type = UPDATE_ACTION_QUEUE, name = []\<rparr> ''0'' = (False, [])
    | Inr dbm' \<Rightarrow> False)"
  by code_simp

text \<open>
  Claim C2, as stated, fails in two ways. On the scenario of the spec, when the devices
  have no mailbox record yet, the worker logs the tuple, removes it from the queue, and
  then aborts at the \<^verbatim>\<open>CHECK\<close> on the mailbox of \<open>d1\<close>, which has gained nothing.
  And when an editor is listed twice, the iteration completes and the mailbox of the
  editor's device has gained two entries for the one tuple.
\<close>

theorem Run_iteration_fanout_counterexample:
  "SeekToFirst (dbs registered_only (UPDATE_ACTION_QUEUE, [])) = Some ''1_7_p_h''
   \<and> SplitString ''1_7_p_h'' (CHR ''_'') = [''1'', ''7'', ''p'', ''h'']
   \<and> Get registered_only \<lparr>type = TOP_DIR_META, name = ''7''\<rparr> ''EDITORS'' = (True, ''u1,u2'')
   \<and> devices_of registered_only (SplitString ''u1,u2'' (CHR '','')) = [''d1'', ''d2'', ''d3'']
   \<and> (case Run_iteration registered_only of
         Inl (f, dbm') \<Rightarrow>
           f = CHECK_failed ''dbm_->Get(options, device, &updates)''
           \<and> Get dbm' \<lparr>type = DEVICE_SYNC, name = []\<rparr> ''d1'' = (False, [])
       | Inr dbm' \<Rightarrow> False)
   \<and> SeekToFirst (dbs listed_twice (UPDATE_ACTION_QUEUE, [])) = Some ''1_7_p_h''
   \<and> Get listed_twice \<lparr>type = DEVICE_SYNC, name = []\<rparr> ''d1'' = (True, [])
   \<and> (case Run_iteration listed_twice of
         Inl (f, dbm') \<Rightarrow> False
       | Inr dbm' \<Rightarrow>
           Get dbm' \<lparr>type = DEVICE_SYNC, name = []\<rparr> ''d1'' = (True, ''1_7_p_h,1_7_p_h''))"
  by code_simp

text \<open>
  Claim C2, amended. Let the first pending tuple split into exactly four fields, let
  its top directory have an \<open>EDITORS\<close> record, every editor a device-list record and
  every device of every editor a mailbox record, and let no device be listed twice.
  Then the iteration of the worker completes; afterwards the tuple is a key of the
  update log exactly once and no key of the pending queue, and the mailbox of each of
  those devices is what it was before, followed by a comma when it was not empty, and
  the tuple.
\<close>

theorem Run_iteration_fanout:
  assumes head: "SeekToFirst (dbs dbm (UPDATE_ACTION_QUEUE, [])) = Some tuple"
    and fields: "SplitString tuple (CHR ''_'') = [ts, dir, path, digest]"
    and editors: "Get dbm \<lparr>type = TOP_DIR_META, name = dir\<rparr> ''EDITORS'' = (True, users_to_update)"
    and lists: "\<forall>user \<in> set (SplitString users_to_update (CHR '','')).
                  fst (Get dbm \<lparr>type = USER_DEVICE, name = []\<rparr> user)"
    and boxes: "\<forall>device \<in> set (devices_of dbm (SplitString users_to_update (CHR '',''))).
                  fst (Get dbm \<lparr>type = DEVICE_SYNC, name = []\<rparr> device)"
    and once: "distinct (devices_of dbm (SplitString users_to_update (CHR '','')))"
  shows "\<exists>dbm'. Run_iteration dbm = Inr dbm'
           \<and> count_list (map fst (dbs dbm' (UPDATE_ACTION_LOG, []))) tuple = 1
           \<and> tuple \<notin> fst ` set (dbs dbm' (UPDATE_ACTION_QUEUE, []))
           \<and> (\<forall>device \<in> set (devices_of dbm (SplitString users_to_update (CHR '',''))).
                 Get dbm' \<lparr>type = DEVICE_SYNC, name = []\<rparr> device =
                   (True, (if snd (Get dbm \<lparr>type = DEVICE_SYNC, name = []\<rparr> device) = [] then []
                           else snd (Get dbm \<lparr>type = DEVICE_SYNC, name = []\<rparr> device) @ '','')
                          @ tuple))"
proof -
  define dbm2 where
    "dbm2 = Delete (Put dbm \<lparr>type = UPDATE_ACTION_LOG, name = []\<rparr> tuple [])
              \<lparr>type = UPDATE_ACTION_QUEUE, name = []\<rparr> tuple"
  let ?us = "SplitString users_to_update (CHR '','')"
  have same: "Get dbm2 \<lparr>type = t, name = n\<rparr> k = Get dbm \<lparr>type = t, name = n\<rparr> k"
    if "t \<noteq> UPDATE_ACTION_LOG" "t \<noteq> UPDATE_ACTION_QUEUE" for t n k
    unfolding dbm2_def using that by (rule Get_after_claim)
  have devs: "devices_of dbm2 ?us = devices_of dbm ?us"
    unfolding dbm2_def by (rule devices_of_cong) (simp add: dbs_Delete dbs_Put)
  from fields editors have unfold: "Run_iteration dbm = update_users dbm2 tuple ?us"
    unfolding dbm2_def by (intro Run_iteration_unfold [OF head]) simp_all
  have a: "\<forall>user \<in> set ?us. fst (Get dbm2 \<lparr>type = USER_DEVICE, name = []\<rparr> user)"
    using lists by (simp add: same)
  have b: "\<forall>device \<in> set (devices_of dbm2 ?us). fst (Get dbm2 \<lparr>type = DEVICE_SYNC, name = []\<rparr> device)"
    using boxes by (simp add: same devs)
  have c: "distinct (devices_of dbm2 ?us)"
    using once by (simp add: devs)
  from update_users_ok [OF a b c, of tuple] obtain dbm' where
    run: "update_users dbm2 tuple ?us = Inr dbm'"
    and after: "\<And>d. Get dbm' \<lparr>type = DEVICE_SYNC, name = []\<rparr> d =
                 (if d \<in> set (devices_of dbm2 ?us)
                  then (True, (if snd (Get dbm2 \<lparr>type = DEVICE_SYNC, name = []\<rparr> d) = [] then []
                               else snd (Get dbm2 \<lparr>type = DEVICE_SYNC, name = []\<rparr> d) @ '','') @ tuple)
                  else Get dbm2 \<lparr>type = DEVICE_SYNC, name = []\<rparr> d)"
    by (elim exE conjE) simp
  from unfold run have it: "Run_iteration dbm = Inr dbm'" by simp
  from Run_iteration_log [OF head] it
  have "dbs dbm' (UPDATE_ACTION_LOG, []) = db_Put (dbs dbm (UPDATE_ACTION_LOG, [])) tuple []"
    by (simp add: state_of_def)
  then have log: "count_list (map fst (dbs dbm' (UPDATE_ACTION_LOG, []))) tuple = 1"
    by (simp add: count_list_db_Put)
  from Run_iteration_queue [OF head] it
  have "dbs dbm' (UPDATE_ACTION_QUEUE, []) = db_Delete (dbs dbm (UPDATE_ACTION_QUEUE, [])) tuple"
    by (simp add: state_of_def)
  then have queue: "tuple \<notin> fst ` set (dbs dbm' (UPDATE_ACTION_QUEUE, []))"
    by (simp add: db_Delete_absent)
  have "\<forall>device \<in> set (devices_of dbm ?us).
          Get dbm' \<lparr>type = DEVICE_SYNC, name = []\<rparr> device =
            (True, (if snd (Get dbm \<lparr>type = DEVICE_SYNC, name = []\<rparr> device) = [] then []
                    else snd (Get dbm \<lparr>type = DEVICE_SYNC, name = []\<rparr> device) @ '','') @ tuple)"
    using after by (simp add: same devs)
  with it log queue show ?thesis by blast
qed

theorem Run_iteration_fanout_witness:
  "\<exists>dbm'. Run_iteration with_mailboxes = Inr dbm'
     \<and> count_list (map fst (dbs dbm' (UPDATE_ACTION_LOG, []))) ''1_7_p_h'' = 1
     \<and> ''1_7_p_h'' \<notin> fst ` set (dbs dbm' (UPDATE_ACTION_QUEUE, []))
     \<and> Get dbm' \<lparr>type = DEVICE_SYNC, name = []\<rparr> ''d1'' = (True, ''1_7_p_h'')
     \<and> Get dbm' \<lparr>type = DEVICE_SYNC, name = []\<rparr> ''d2'' = (True, ''0_7_q_k,1_7_p_h'')
     \<and> Get dbm' \<lparr>type = DEVICE_SYNC, name = []\<rparr> ''d3'' = (True, ''1_7_p_h'')"
proof -
  have head: "SeekToFirst (dbs with_mailboxes (UPDATE_ACTION_QUEUE, [])) = Some ''1_7_p_h''"
    by code_simp
  have fields: "SplitString ''1_7_p_h'' (CHR ''_'') = [''1'', ''7'', ''p'', ''h'']"
    by code_simp
  have editors: "Get with_mailboxes \<lparr>type = TOP_DIR_META, name = ''7''\<rparr> ''EDITORS'' = (True, ''u1,u2'')"
    by code_simp
  have devs: "devices_of with_mailboxes (SplitString ''u1,u2'' (CHR '','')) = [''d1'', ''d2'', ''d3'']"
    by code_simp
  have lists: "\<forall>user \<in> set (SplitString ''u1,u2'' (CHR '','')).
                  fst (Get with_mailboxes \<lparr>type = USER_DEVICE, name = []\<rparr> user)"
    by code_simp
  have boxes: "\<forall>device \<in> set (devices_of with_mailboxes (SplitString ''u1,u2'' (CHR '',''))).
                  fst (Get with_mailboxes \<lparr>type = DEVICE_SYNC, name = []\<rparr> device)"
    by code_simp
  have once: "distinct (devices_of with_mailboxes (SplitString ''u1,u2'' (CHR '','')))"
    by code_simp
  have old: "Get with_mailboxes \<lparr>type = DEVICE_SYNC, name = []\<rparr> ''d1'' = (True, [])"
    "Get with_mailboxes \<lparr>type = DEVICE_SYNC, name = []\<rparr> ''d2'' = (True, ''0_7_q_k'')"
    "Get with_mailboxes \<lparr>type = DEVICE_SYNC, name = []\<rparr> ''d3'' = (True, [])"
    by code_simp+
  from Run_iteration_fanout [OF head fields editors lists boxes once]
  show ?thesis unfolding devs by (simp add: old)
qed

text \<open>
  Claim C7, as stated, fails: with a tuple for a directory without \<open>EDITORS\<close> first
  in the queue, the worker aborts. The tuple behind it stays in the queue, is not
  logged and reaches no mailbox; nothing is set aside.
\<close>

theorem Run_aborts_counterexample:
  "(case Run unknown_dir of
      Waiting dbm' \<Rightarrow> False
    | Aborted f dbm' \<Rightarrow>
        f = CHECK_failed ''dbm_->Get(options, EDITORS, &users_to_update)''
        \<and> Get dbm' \<lparr>type = UPDATE_ACTION_QUEUE, name = []\<rparr> ''1_7_p_h'' = (True, [])
        \<and> Get dbm' \<lparr>type = UPDATE_ACTION_LOG, name = []\<rparr> ''1_7_p_h'' = (False, [])
        \<and> Get dbm' \<lparr>type = DEVICE_SYNC, name = []\<rparr> ''d1'' = (True, []))"
  by code_simp

text \<open>
  Claim C7, amended. When the first pending tuple has at least four fields and its top
  directory has no \<open>EDITORS\<close> record, or one of its editors has no device-list
  record, the iteration ends in a failed \<^verbatim>\<open>CHECK\<close> and the worker with it. By then
  the tuple has been written to the update log and removed from the queue; the other
  pending entries are left in the queue, unprocessed.
\<close>

theorem Run_aborts:
  assumes head: "SeekToFirst (dbs dbm (UPDATE_ACTION_QUEUE, [])) = Some tuple"
    and fields: "4 \<le> length (SplitString tuple (CHR ''_''))"
    and bad: "\<not> fst (Get dbm \<lparr>type = TOP_DIR_META, name = SplitString tuple (CHR ''_'') ! 1\<rparr> ''EDITORS'')
              \<or> (\<exists>user \<in> set (SplitString (snd (Get dbm
                      \<lparr>type = TOP_DIR_META, name = SplitString tuple (CHR ''_'') ! 1\<rparr> ''EDITORS''))
                    (CHR '','')).
                   \<not> fst (Get dbm \<lparr>type = USER_DEVICE, name = []\<rparr> user))"
  shows "\<exists>f dbm'. Run_iteration dbm = Inl (f, dbm') \<and> Run dbm = Aborted f dbm'
           \<and> Get dbm' \<lparr>type = UPDATE_ACTION_LOG, name = []\<rparr> tuple = (True, [])
           \<and> dbs dbm' (UPDATE_ACTION_QUEUE, []) = db_Delete (dbs dbm (UPDATE_ACTION_QUEUE, [])) tuple"
proof -
  let ?meta = "\<lparr>type = TOP_DIR_META, name = SplitString tuple (CHR ''_'') ! 1\<rparr>"
  let ?dbm2 = "Delete (Put dbm \<lparr>type = UPDATE_ACTION_LOG, name = []\<rparr> tuple [])
                 \<lparr>type = UPDATE_ACTION_QUEUE, name = []\<rparr> tuple"
  have "\<exists>f dbm'. Run_iteration dbm = Inl (f, dbm')"
  proof (cases "fst (Get dbm ?meta ''EDITORS'')")
    case False
    from Run_iteration_no_editors [OF head fields False] show ?thesis by blast
  next
    case True
    then obtain users_to_update where got: "Get dbm ?meta ''EDITORS'' = (True, users_to_update)"
      by (cases "Get dbm ?meta ''EDITORS''") auto
    with bad True have "\<exists>user \<in> set (SplitString users_to_update (CHR '','')).
                     \<not> fst (Get dbm \<lparr>type = USER_DEVICE, name = []\<rparr> user)" by simp
    then have "\<exists>user \<in> set (SplitString users_to_update (CHR '','')).
                     \<not> fst (Get ?dbm2 \<lparr>type = USER_DEVICE, name = []\<rparr> user)"
      by (simp add: Get_after_claim)
    from update_users_aborts [OF this, of tuple] Run_iteration_unfold [OF head fields got]
    show ?thesis by simp
  qed
  then obtain f dbm' where it: "Run_iteration dbm = Inl (f, dbm')" by blast
  from head have "\<not> DBEmpty (db dbm \<lparr>type = UPDATE_ACTION_QUEUE, name = []\<rparr>)"
    by (simp add: DBEmpty_def db_def)
  with it have run: "Run dbm = Aborted f dbm'" by (subst Run.simps) simp
  from Run_iteration_log [OF head] it
  have "dbs dbm' (UPDATE_ACTION_LOG, []) = db_Put (dbs dbm (UPDATE_ACTION_LOG, [])) tuple []"
    by (simp add: state_of_def)
  then have log: "Get dbm' \<lparr>type = UPDATE_ACTION_LOG, name = []\<rparr> tuple = (True, [])"
    by (simp add: Get_def db_def db_Get_Put)
  from Run_iteration_queue [OF head] it
  have "dbs dbm' (UPDATE_ACTION_QUEUE, []) = db_Delete (dbs dbm (UPDATE_ACTION_QUEUE, [])) tuple"
    by (simp add: state_of_def)
  with it run log show ?thesis by blast
qed

theorem Run_aborts_witness:
  "(\<exists>f dbm'. Run_iteration unknown_dir = Inl (f, dbm') \<and> Run unknown_dir = Aborted f dbm'
      \<and> Get dbm' \<lparr>type = UPDATE_ACTION_LOG, name = []\<rparr> ''0_9_p_h'' = (True, [])
      \<and> dbs dbm' (UPDATE_ACTION_QUEUE, [])
          = db_Delete (dbs unknown_dir (UPDATE_ACTION_QUEUE, [])) ''0_9_p_h'')
   \<and> (\<exists>f dbm'. Run_iteration unknown_editor = Inl (f, dbm')
      \<and> Run unknown_editor = Aborted f dbm'
      \<and> Get dbm' \<lparr>type = UPDATE_ACTION_LOG, name = []\<rparr> ''1_7_p_h'' = (True, [])
      \<and> dbs dbm' (UPDATE_ACTION_QUEUE, [])
          = db_Delete (dbs unknown_editor (UPDATE_ACTION_QUEUE, [])) ''1_7_p_h'')"
proof -
  have head: "SeekToFirst (dbs unknown_dir (UPDATE_ACTION_QUEUE, [])) = Some ''0_9_p_h''"
    by code_simp
  have fields: "4 \<le> length (SplitString ''0_9_p_h'' (CHR ''_''))"
    by code_simp
  have "\<not> fst (Get unknown_dir
              \<lparr>type = TOP_DIR_META, name = SplitString ''0_9_p_h'' (CHR ''_'') ! 1\<rparr> ''EDITORS'')"
    by code_simp
  then have bad: "\<not> fst (Get unknown_dir
              \<lparr>type = TOP_DIR_META, name = SplitString ''0_9_p_h'' (CHR ''_'') ! 1\<rparr> ''EDITORS'')
     \<or> (\<exists>user \<in> set (SplitString (snd (Get unknown_dir
             \<lparr>type = TOP_DIR_META, name = SplitString ''0_9_p_h'' (CHR ''_'') ! 1\<rparr> ''EDITORS''))
           (CHR '','')).
          \<not> fst (Get unknown_dir \<lparr>type = USER_DEVICE, name = []\<rparr> user))"
    by (rule disjI1)
  have head': "SeekToFirst (dbs unknown_editor (UPDATE_ACTION_QUEUE, [])) = Some ''1_7_p_h''"
    by code_simp
  have fields': "4 \<le> length (SplitString ''1_7_p_h'' (CHR ''_''))"
    by code_simp
  have "\<exists>user \<in> set (SplitString (snd (Get unknown_editor
             \<lparr>type = TOP_DIR_META, name = SplitString ''1_7_p_h'' (CHR ''_'') ! 1\<rparr> ''EDITORS''))
           (CHR '','')).
          \<not> fst (Get unknown_editor \<lparr>type = USER_DEVICE, name = []\<rparr> user)"
    by code_simp
  then have bad': "\<not> fst (Get unknown_editor
              \<lparr>type = TOP_DIR_META, name = SplitString ''1_7_p_h'' (CHR ''_'') ! 1\<rparr> ''EDITORS'')
     \<or> (\<exists>user \<in> set (SplitString (snd (Get unknown_editor
             \<lparr>type = TOP_DIR_META, name = SplitString ''1_7_p_h'' (CHR ''_'') ! 1\<rparr> ''EDITORS''))
           (CHR '','')).
          \<not> fst (Get unknown_editor \<lparr>type = USER_DEVICE, name = []\<rparr> user))"
    by (rule disjI2)
  from Run_aborts [OF head fields bad] Run_aborts [OF head' fields' bad'] show ?thesis
    by (rule conjI)
qed

end
